theory Spec2Isabelle
  imports
    Main
    "HOL-Library.AList"
    "HOL-Library.Char_ord"
    "HOL-Library.List_Lexorder"
    "HOL-Library.Sublist"
begin

section \<open>SimpleDirectoryReader (lazyllm/tools/rag/dataReader.py)\<close>

text \<open>
  A shallow embedding of \<^verbatim>\<open>SimpleDirectoryReader\<close>: file discovery
  (\<^verbatim>\<open>_add_files\<close>), extractor dispatch and metadata merge
  (\<^verbatim>\<open>load_file\<close>) and the sequential and pooled loaders
  (\<^verbatim>\<open>_load_data\<close>).

  Python values are modelled as follows.
  \<^item> \<^verbatim>\<open>str\<close> is \<open>string\<close>; comparison is by character code.
  \<^item> A \<^verbatim>\<open>PurePosixPath\<close> is the list of its \<^verbatim>\<open>parts\<close>; paths are
    equal when their parts are, and ordered lexicographically by parts.
  \<^item> A \<^verbatim>\<open>dict\<close> is an association list in insertion order; the two registries
    that the code shares by reference are cells of a store.
  \<^item> An exception is a value of type \<open>error\<close>; a function that can raise returns
    \<open>error + 'a\<close> with \<open>Inl\<close> for the exception.
  \<^item> Log records and the creation of the worker pool are events of a trace that the
    functions return next to their result.
  \<^item> The filesystem adapter, the readers, \<^verbatim>\<open>fnmatch\<close>, the codec and the
    configuration flags are outside the file; they are parameters of the model.
\<close>

subsection \<open>Strings\<close>

definition str_lower :: "string \<Rightarrow> string" where
  \<comment> \<open>\<^verbatim>\<open>str.lower\<close> on the code points below 256, which are those of \<open>char\<close>: the
      letters A to Z and the capitals U+00C0 to U+00DE, but for the sign U+00D7, move up by
      32; every other character is kept.\<close>
  "str_lower s =
     map (\<lambda>c. if (CHR ''A'' \<le> c \<and> c \<le> CHR ''Z'')
                  \<or> (CHR 0xC0 \<le> c \<and> c \<le> CHR 0xDE \<and> c \<noteq> CHR 0xD7)
               then char_of (of_char c + (32::nat)) else c) s"

fun split_on :: "char \<Rightarrow> string \<Rightarrow> string list" where
  \<comment> \<open>\<^verbatim>\<open>s.split(c)\<close>\<close>
  "split_on c [] = [[]]"
| "split_on c (x # xs) =
     (if x = c then [] # split_on c xs
      else (case split_on c xs of [] \<Rightarrow> [[x]] | y # ys \<Rightarrow> (x # y) # ys))"

fun join_sep :: "string list \<Rightarrow> string" where
  \<comment> \<open>\<^verbatim>\<open>'/'.join(parts)\<close>\<close>
  "join_sep [] = []"
| "join_sep [x] = x"
| "join_sep (x # y # ys) = x @ ''/'' @ join_sep (y # ys)"

definition rfind :: "char \<Rightarrow> string \<Rightarrow> int" where
  \<comment> \<open>\<^verbatim>\<open>s.rfind(c)\<close>: the index of the last \<open>c\<close>, or \<open>-1\<close>.\<close>
  "rfind c s =
     (if c \<in> set s then int (length s) - 1 - int (length (takeWhile (\<lambda>x. x \<noteq> c) (rev s)))
      else - 1)"

definition digit_char :: "nat \<Rightarrow> char" where
  "digit_char d = char_of (of_char CHR ''0'' + d)"

function str_of_nat :: "nat \<Rightarrow> string" where
  \<comment> \<open>\<^verbatim>\<open>str(i)\<close> for a non-negative integer.\<close>
  "str_of_nat n = (if n < 10 then [digit_char n] else str_of_nat (n div 10) @ [digit_char (n mod 10)])"
  by pat_completeness auto
termination
  by (relation "measure id") auto

definition os_path_join :: "string \<Rightarrow> string \<Rightarrow> string" where
  \<comment> \<open>\<^verbatim>\<open>posixpath.join(a, b)\<close>\<close>
  "os_path_join a b =
     (if prefix ''/'' b then b
      else if a = [] \<or> suffix ''/'' a then a @ b
      else a @ ''/'' @ b)"

subsection \<open>Paths\<close>

type_synonym path = "string list"

definition Path_of :: "string \<Rightarrow> path" where
  \<comment> \<open>\<^verbatim>\<open>PurePosixPath(s)\<close>: the root (\<open>/\<close>, or \<open>//\<close> for exactly two leading
      slashes) followed by the segments that are neither empty nor \<open>.\<close>.\<close>
  "Path_of s =
     (let root = (if prefix ''//'' s \<and> \<not> prefix ''///'' s then ''//''
                  else if prefix ''/'' s then ''/'' else []);
          segs = filter (\<lambda>x. x \<noteq> [] \<and> x \<noteq> ''.'') (split_on CHR ''/'' s)
      in if root = [] then segs else root # segs)"

definition has_root :: "path \<Rightarrow> bool" where
  "has_root p = (case p of [] \<Rightarrow> False | r # _ \<Rightarrow> r = ''/'' \<or> r = ''//'')"

definition path_str :: "path \<Rightarrow> string" where
  \<comment> \<open>\<^verbatim>\<open>str(path)\<close>\<close>
  "path_str p =
     (case p of [] \<Rightarrow> ''.''
      | r # rest \<Rightarrow> if has_root p then r @ join_sep rest else join_sep p)"

definition path_div :: "path \<Rightarrow> path \<Rightarrow> path" where
  \<comment> \<open>\<^verbatim>\<open>p / q\<close>: an absolute right operand replaces the left one.\<close>
  "path_div p q = (if has_root q then q else p @ q)"

definition path_name :: "path \<Rightarrow> string" where
  \<comment> \<open>\<^verbatim>\<open>path.name\<close>\<close>
  "path_name p = (if length p = (if has_root p then 1 else 0) then [] else last p)"

definition path_suffix :: "path \<Rightarrow> string" where
  \<comment> \<open>\<^verbatim>\<open>path.suffix\<close>\<close>
  "path_suffix p =
     (let name = path_name p; i = rfind CHR ''.'' name
      in if 0 < i \<and> i < int (length name) - 1 then drop (nat i) name else [])"

datatype pathm = PathCls | PurePosixPathCls

subsection \<open>Errors, events, metadata and document nodes\<close>

datatype error =
    ValueError_must_provide
  | ValueError_file_missing string
  | ValueError_dir_missing string
  | ValueError_no_files string
  | AttributeError_cwd
  | TypeError_reduce_empty
  | PicklingError
  | Raised string

datatype event =
    WarnNoPattern string
  | ErrorNotDecodable string
  | WarnNumWorkers
  | PoolCreated nat

datatype mval = IntV int | StrV string

type_synonym metadata = "(string \<times> mval) list"

definition dict_update :: "('k \<times> 'v) list \<Rightarrow> ('k \<times> 'v) list \<Rightarrow> ('k \<times> 'v) list" where
  \<comment> \<open>\<^verbatim>\<open>d.update(other)\<close>: the items of \<open>other\<close> are stored in order; an
      existing key keeps its position, a new key is appended.\<close>
  "dict_update d other = fold (\<lambda>(k, v). AList.update k v) other d"

text \<open>
  Modelled from the spec: \<^verbatim>\<open>DocNode\<close> (\<^verbatim>\<open>doc_node.py\<close> is not among the sources).
  A document node carries its text, a metadata record, an identity and two exclusion
  lists. \<open>uid = None\<close> stands for the identity the node's constructor assigns. A
  metadata record that is \<^verbatim>\<open>None\<close> reads as the empty dict, as in
  \<^verbatim>\<open>doc._global_metadata or {}\<close>.
\<close>

record DocNode =
  node_text :: string
  global_metadata :: metadata
  uid :: "string option"
  excluded_embed_metadata_keys :: "string list"
  excluded_llm_metadata_keys :: "string list"

definition new_DocNode :: "string \<Rightarrow> metadata \<Rightarrow> DocNode" where
  \<comment> \<open>\<^verbatim>\<open>DocNode(text=data, global_metadata=md)\<close>\<close>
  "new_DocNode data md =
     \<lparr>node_text = data, global_metadata = md, uid = None,
      excluded_embed_metadata_keys = [], excluded_llm_metadata_keys = []\<rparr>"

subsection \<open>External collaborators\<close>

text \<open>
  The filesystem adapter. \<open>fs_open\<close> gives the outcome of \<^verbatim>\<open>fs.open(path)\<close>: an
  exception, or a handle; the handle is the outcome of its \<^verbatim>\<open>read()\<close>.
  \<open>fs_is_default\<close> is \<^verbatim>\<open>is_default_fs(fs)\<close>; \<open>fs_picklable\<close> says whether
  \<^verbatim>\<open>pickle\<close> accepts the adapter object.
\<close>

record filesystem =
  fs_is_default :: bool
  fs_picklable :: bool
  fs_isfile :: "string \<Rightarrow> bool"
  fs_isdir :: "string \<Rightarrow> bool"
  fs_glob :: "string \<Rightarrow> string list"
  fs_parent :: "string \<Rightarrow> string"
  fs_open :: "string \<Rightarrow> string \<Rightarrow> error + (error + string)"

datatype reader_result = OneNode DocNode | NodeList "DocNode list"

type_synonym reader = "path \<Rightarrow> filesystem option \<Rightarrow> error + reader_result"

text \<open>
  A registry value is a reader class, given by the outcome of instantiating it, or a
  callable. \<open>picklable\<close> says whether \<^verbatim>\<open>pickle\<close> accepts the object: it does for a
  class or function that is importable by its name, and for an instance of such a class
  whose state it accepts; it does not for a lambda or for a function or class defined
  inside a function.
\<close>

datatype extractor =
    ReaderType (picklable: bool) "error + reader"
  | ReaderInstance (picklable: bool) reader

type_synonym registry = "(string \<times> extractor) list"

type_synonym metadata_func = "string \<Rightarrow> error + metadata"

text \<open>
  The process environment: the working directory of \<^verbatim>\<open>Path.cwd()\<close>,
  \<^verbatim>\<open>fnmatch.fnmatch(name, pattern)\<close>, \<^verbatim>\<open>bytes.decode(encoding)\<close> (\<open>None\<close> when
  it raises), the two \<^verbatim>\<open>config\<close> flags, \<^verbatim>\<open>config['data_path']\<close>,
  \<^verbatim>\<open>multiprocessing.cpu_count()\<close>, \<^verbatim>\<open>get_default_fs()\<close> and
  \<^verbatim>\<open>_DefaultFileMetadataFunc(fs)\<close>.
\<close>

record env =
  cwd :: string
  fnmatch :: "string \<Rightarrow> string \<Rightarrow> bool"
  decode :: "string \<Rightarrow> string \<Rightarrow> string option"
  rag_filename_as_id :: bool
  use_fallback_reader :: bool
  data_path :: string
  cpu_count :: nat
  get_default_fs :: filesystem
  DefaultFileMetadataFunc :: "filesystem \<Rightarrow> metadata_func"

subsection \<open>\<^verbatim>\<open>load_file\<close>\<close>

definition pathm_cwd :: "env \<Rightarrow> pathm \<Rightarrow> error + path" where
  \<comment> \<open>\<^verbatim>\<open>pathm.cwd()\<close>: a classmethod of \<^verbatim>\<open>Path\<close>; \<^verbatim>\<open>PurePosixPath\<close> has none.\<close>
  "pathm_cwd e pm =
     (case pm of PathCls \<Rightarrow> Inr (Path_of (cwd e)) | PurePosixPathCls \<Rightarrow> Inl AttributeError_cwd)"

definition match_target :: "env \<Rightarrow> pathm \<Rightarrow> string \<Rightarrow> error + string" where
  \<comment> \<open>Lines 209 to 215: the pattern a file name is tested against. The value of
      line 210 is overwritten; only its call of \<^verbatim>\<open>pathm.cwd()\<close> remains.\<close>
  "match_target e pm pattern =
     (let pt_lower = str_lower (path_str (Path_of pattern)) in
      case (if suffix ''*'' pt_lower then Inr pt_lower
            else (case pathm_cwd e pm of
                    Inl err \<Rightarrow> Inl err
                  | Inr c \<Rightarrow> Inr (os_path_join (str_lower (path_str c)) pt_lower))) of
        Inl err \<Rightarrow> Inl err
      | Inr _ \<Rightarrow>
          (if prefix ''*'' pt_lower then Inr pt_lower
           else (case pathm_cwd e pm of
                   Inl err \<Rightarrow> Inl err
                 | Inr base \<Rightarrow> Inr (os_path_join (str_lower (path_str base)) pt_lower))))"

fun find_extractor ::
  "env \<Rightarrow> pathm \<Rightarrow> string \<Rightarrow> registry \<Rightarrow> error + (string \<times> extractor) option" where
  \<comment> \<open>The \<^verbatim>\<open>for ... else\<close> loop of lines 208 to 232, up to its \<^verbatim>\<open>break\<close>: the first
      entry, in the order of \<^verbatim>\<open>file_extractor.items()\<close>, whose pattern matches.\<close>
  "find_extractor e pm filename_lower [] = Inr None"
| "find_extractor e pm filename_lower ((pattern, ex) # rest) =
     (case match_target e pm pattern of
        Inl err \<Rightarrow> Inl err
      | Inr match_pattern \<Rightarrow>
          if fnmatch e filename_lower match_pattern then Inr (Some (pattern, ex))
          else find_extractor e pm filename_lower rest)"

definition get_reader :: "extractor \<Rightarrow> error + reader" where
  \<comment> \<open>\<^verbatim>\<open>extractor() if isinstance(extractor, type) else extractor\<close>\<close>
  "get_reader ex = (case ex of ReaderType _ mk \<Rightarrow> mk | ReaderInstance _ r \<Rightarrow> Inr r)"

definition reader_kwargs :: "filesystem option \<Rightarrow> filesystem option" where
  \<comment> \<open>\<^verbatim>\<open>{'fs': fs} if fs and not is_default_fs(fs) else {}\<close>\<close>
  "reader_kwargs fs =
     (case fs of None \<Rightarrow> None | Some f \<Rightarrow> if fs_is_default f then None else Some f)"

definition merge_metadata :: "metadata \<Rightarrow> metadata \<Rightarrow> DocNode \<Rightarrow> DocNode" where
  \<comment> \<open>Lines 223 to 226.\<close>
  "merge_metadata metadata_generated user_metadata doc =
     doc\<lparr>global_metadata :=
           dict_update (dict_update metadata_generated (global_metadata doc)) user_metadata\<rparr>"

definition set_uids :: "path \<Rightarrow> DocNode list \<Rightarrow> DocNode list" where
  \<comment> \<open>Lines 229 and 230.\<close>
  "set_uids input_file docs =
     map (\<lambda>(i, doc). doc\<lparr>uid := Some (path_str input_file @ ''_index_'' @ str_of_nat i)\<rparr>)
       (enumerate 0 docs)"

definition nodes_of :: "reader_result \<Rightarrow> DocNode list" where
  \<comment> \<open>Line 221: \<^verbatim>\<open>if isinstance(docs, DocNode): docs = [docs]\<close>\<close>
  "nodes_of res = (case res of OneNode d \<Rightarrow> [d] | NodeList ds \<Rightarrow> ds)"

definition read_docs ::
  "env \<Rightarrow> path \<Rightarrow> metadata \<Rightarrow> metadata \<Rightarrow> filesystem option \<Rightarrow> extractor \<Rightarrow>
   event list \<times> (error + DocNode list)" where
  \<comment> \<open>Lines 218 to 231: the body of the loop at the matching entry.\<close>
  "read_docs e input_file metadata_generated user_metadata fs ex =
     (case get_reader ex of
        Inl err \<Rightarrow> ([], Inl err)
      | Inr rd \<Rightarrow>
          (case rd input_file (reader_kwargs fs) of
             Inl err \<Rightarrow> ([], Inl err)
           | Inr res \<Rightarrow>
               (let docs = nodes_of res;
                    docs = map (merge_metadata metadata_generated user_metadata) docs;
                    docs = (if rag_filename_as_id e then set_uids input_file docs else docs)
                in ([], Inr docs))))"

definition fallback_read ::
  "env \<Rightarrow> path \<Rightarrow> metadata \<Rightarrow> string \<Rightarrow> filesystem option \<Rightarrow>
   event list \<times> (error + DocNode list)" where
  \<comment> \<open>Lines 234 to 246: the \<^verbatim>\<open>else\<close> of the loop. The \<^verbatim>\<open>try\<close> covers
      \<^verbatim>\<open>read\<close> and \<^verbatim>\<open>decode\<close>, not \<^verbatim>\<open>fs.open\<close>.\<close>
  "fallback_read e input_file user_metadata encoding fs =
     (if \<not> use_fallback_reader e then ([WarnNoPattern (path_str input_file)], Inr [])
      else
        (let fs' = (case fs of None \<Rightarrow> get_default_fs e | Some f \<Rightarrow> f) in
         case fs_open fs' (path_str input_file) encoding of
           Inl err \<Rightarrow> ([], Inl err)
         | Inr handle \<Rightarrow>
             (case handle of
                Inl _ \<Rightarrow> ([ErrorNotDecodable (path_str input_file)], Inr [])
              | Inr raw \<Rightarrow>
                  (case decode e encoding raw of
                     None \<Rightarrow> ([ErrorNotDecodable (path_str input_file)], Inr [])
                   | Some data \<Rightarrow> ([], Inr [new_DocNode data user_metadata])))))"

definition load_file ::
  "env \<Rightarrow> path \<Rightarrow> metadata_func option \<Rightarrow> registry \<Rightarrow> string \<Rightarrow> pathm \<Rightarrow>
   filesystem option \<Rightarrow> metadata option \<Rightarrow> event list \<times> (error + DocNode list)" where
  "load_file e input_file metadata_genf file_extractor encoding pm fs md =
     (let user_metadata = (case md of None \<Rightarrow> [] | Some m \<Rightarrow> m) in
      case (case metadata_genf of None \<Rightarrow> Inr [] | Some g \<Rightarrow> g (path_str input_file)) of
        Inl err \<Rightarrow> ([], Inl err)
      | Inr metadata_generated \<Rightarrow>
          (let filename_lower = str_lower (path_str input_file) in
           case find_extractor e pm filename_lower file_extractor of
             Inl err \<Rightarrow> ([], Inl err)
           | Inr (Some (pattern, ex)) \<Rightarrow>
               read_docs e input_file metadata_generated user_metadata fs ex
           | Inr None \<Rightarrow> fallback_read e input_file user_metadata encoding fs))"

subsection \<open>The instance and file discovery (\<^verbatim>\<open>_add_files\<close>)\<close>

text \<open>
  Dictionaries that the code shares by reference (the caller's \<^verbatim>\<open>file_extractor\<close>
  and the class attribute \<^verbatim>\<open>default_file_readers\<close>) live in a store: an address names a
  dictionary, \<open>heap_alloc\<close> makes a new one. An address handed to the model is an
  allocated one (below \<open>next_free\<close>).
\<close>

type_synonym addr = nat

record heap =
  cells :: "addr \<Rightarrow> registry option"
  next_free :: addr

definition heap_get :: "heap \<Rightarrow> addr \<Rightarrow> registry" where
  "heap_get h a = (case cells h a of None \<Rightarrow> [] | Some d \<Rightarrow> d)"

definition heap_set :: "heap \<Rightarrow> addr \<Rightarrow> registry \<Rightarrow> heap" where
  "heap_set h a d = h\<lparr>cells := (cells h)(a := Some d)\<rparr>"

definition heap_alloc :: "heap \<Rightarrow> registry \<Rightarrow> heap \<times> addr" where
  "heap_alloc h d =
     (h\<lparr>cells := (cells h)(next_free h := Some d), next_free := Suc (next_free h)\<rparr>, next_free h)"

text \<open>
  The attributes of an instance that \<^verbatim>\<open>__init__\<close> sets.
  \<open>self_metadata_genf_picklable\<close> says whether \<^verbatim>\<open>pickle\<close> accepts the object
  \<^verbatim>\<open>_metadata_genf\<close>.
\<close>

record SimpleDirectoryReader =
  self_fs :: filesystem
  self_encoding :: string
  self_exclude :: "string list option"
  self_recursive :: bool
  self_exclude_hidden :: bool
  self_required_exts :: "string list option"
  self_num_files_limit :: "int option"
  self_Path :: pathm
  self_metadatas :: "metadata option list option"
  self_input_files :: "path list"
  self_file_extractor :: addr
  self_metadata_genf :: metadata_func
  self_metadata_genf_picklable :: bool

definition is_hidden :: "path \<Rightarrow> bool" where
  \<comment> \<open>\<^verbatim>\<open>_is_hidden\<close>\<close>
  "is_hidden p = list_ex (\<lambda>part. prefix ''.'' part \<and> part \<noteq> ''.'' \<and> part \<noteq> ''..'') p"

definition excluded_glob :: "SimpleDirectoryReader \<Rightarrow> path \<Rightarrow> string \<Rightarrow> path" where
  \<comment> \<open>Lines 133 to 136.\<close>
  "excluded_glob self input_dir excluded_pattern =
     (if self_recursive self
      then path_div (path_div input_dir (Path_of ''**'')) (Path_of excluded_pattern)
      else path_div input_dir (Path_of excluded_pattern))"

definition rejected :: "SimpleDirectoryReader \<Rightarrow> path \<Rightarrow> path list \<times> path list" where
  \<comment> \<open>Lines 131 to 141: \<^verbatim>\<open>(rejected_files, rejected_dirs)\<close>, each a set held as a
      list without repetition.\<close>
  "rejected self input_dir =
     (case self_exclude self of
        None \<Rightarrow> ([], [])
      | Some patterns \<Rightarrow>
          fold (\<lambda>excluded_pattern acc.
                  fold (\<lambda>file (rejected_files, rejected_dirs).
                          if fs_isdir (self_fs self) file
                          then (rejected_files, List.insert (Path_of file) rejected_dirs)
                          else (List.insert (Path_of file) rejected_files, rejected_dirs))
                    (fs_glob (self_fs self) (path_str (excluded_glob self input_dir excluded_pattern)))
                    acc)
            patterns ([], []))"

definition skip_ref :: "SimpleDirectoryReader \<Rightarrow> path list \<Rightarrow> path list \<Rightarrow> path \<Rightarrow> bool" where
  \<comment> \<open>Lines 151 to 167: whether the loop \<^verbatim>\<open>continue\<close>s at \<open>ref\<close>.\<close>
  "skip_ref self rejected_files rejected_dirs ref =
     (let is_dir = fs_isdir (self_fs self) (path_str ref);
          skip_hidden = (self_exclude_hidden self \<and> is_hidden ref);
          skip_bad_exts = (case self_required_exts self of
                             None \<Rightarrow> False
                           | Some exts \<Rightarrow> path_suffix ref \<notin> set exts);
          skip_excluded =
            (if ref \<in> set rejected_files then True
             else (let ref_parent_dir =
                         (if is_dir then path_str ref else fs_parent (self_fs self) (path_str ref))
                   in list_ex (\<lambda>rejected_dir. prefix (path_str rejected_dir) ref_parent_dir)
                        rejected_dirs))
      in is_dir \<or> skip_hidden \<or> skip_bad_exts \<or> skip_excluded)"

definition file_refs :: "SimpleDirectoryReader \<Rightarrow> path \<Rightarrow> string list" where
  \<comment> \<open>Lines 143 to 147.\<close>
  "file_refs self input_dir =
     (if self_recursive self then fs_glob (self_fs self) (path_str input_dir @ ''/**/*'')
      else fs_glob (self_fs self) (path_str input_dir @ ''/*''))"

definition all_files :: "SimpleDirectoryReader \<Rightarrow> path \<Rightarrow> path list" where
  \<comment> \<open>Lines 149 to 170: the set \<^verbatim>\<open>all_files\<close> after the loop, as a list without
      repetition.\<close>
  "all_files self input_dir =
     (let (rejected_files, rejected_dirs) = rejected self input_dir in
      fold (\<lambda>r acc. let ref = Path_of r in
                       if skip_ref self rejected_files rejected_dirs ref then acc
                       else List.insert ref acc)
        (file_refs self input_dir) [])"

definition add_files :: "SimpleDirectoryReader \<Rightarrow> path \<Rightarrow> error + path list" where
  \<comment> \<open>\<^verbatim>\<open>_add_files\<close>, lines 172 to 182.\<close>
  "add_files self input_dir =
     (let new_input_files = sort (all_files self input_dir) in
      if length new_input_files = 0 then Inl (ValueError_no_files (path_str input_dir))
      else Inr (case self_num_files_limit self of
                  None \<Rightarrow> new_input_files
                | Some limit \<Rightarrow>
                    if limit > 0 then take (nat limit) new_input_files else new_input_files))"

subsection \<open>\<^verbatim>\<open>__init__\<close>\<close>

record init_args =
  arg_input_dir :: "string option"
  arg_input_files :: "string list option"
  arg_exclude :: "string list option"
  arg_exclude_hidden :: bool
  arg_recursive :: bool
  arg_encoding :: string
  arg_required_exts :: "string list option"
  arg_file_extractor :: "addr option"
  arg_fs :: "filesystem option"
  arg_metadata_genf :: "metadata_func option"
  arg_metadata_genf_picklable :: bool
  arg_num_files_limit :: "int option"
  arg_metadatas :: "metadata option list option"

definition truthy :: "'a list option \<Rightarrow> bool" where
  \<comment> \<open>The truth value of an optional string or list: \<^verbatim>\<open>None\<close> and the empty one are false.\<close>
  "truthy x = (case x of None \<Rightarrow> False | Some v \<Rightarrow> v \<noteq> [])"

fun check_input_files :: "env \<Rightarrow> filesystem \<Rightarrow> string list \<Rightarrow> error + path list" where
  \<comment> \<open>Lines 107 to 114.\<close>
  "check_input_files e fs [] = Inr []"
| "check_input_files e fs (p # ps) =
     (case (if fs_isfile fs p then Inr p
            else (let q = os_path_join (data_path e) p in
                  if fs_isfile fs q then Inr q else Inl (ValueError_file_missing q))) of
        Inl err \<Rightarrow> Inl err
      | Inr found \<Rightarrow>
          (case check_input_files e fs ps of
             Inl err \<Rightarrow> Inl err
           | Inr rest \<Rightarrow> Inr (Path_of found # rest)))"

definition init :: "env \<Rightarrow> heap \<Rightarrow> init_args \<Rightarrow> error + (heap \<times> SimpleDirectoryReader)" where
  \<comment> \<open>\<^verbatim>\<open>__init__\<close>. \<^verbatim>\<open>_add_files\<close> reads only attributes that are set before it is
      called, so the instance is built with the later ones (\<^verbatim>\<open>_file_extractor\<close>,
      \<^verbatim>\<open>_metadata_genf\<close>) already in place. A \<^verbatim>\<open>_DefaultFileMetadataFunc\<close> holds
      only the filesystem, so \<^verbatim>\<open>pickle\<close> accepts it when it accepts the filesystem.\<close>
  "init e h a =
     (if (\<not> truthy (arg_input_dir a) \<and> \<not> truthy (arg_input_files a))
         \<or> (truthy (arg_input_dir a) \<and> truthy (arg_input_files a))
      then Inl ValueError_must_provide
      else
        (let fs = (case arg_fs a of None \<Rightarrow> get_default_fs e | Some f \<Rightarrow> f);
             (h', fe) = (case arg_file_extractor a of
                           None \<Rightarrow> heap_alloc h []
                         | Some x \<Rightarrow> if heap_get h x = [] then heap_alloc h [] else (h, x));
             self = \<lparr>self_fs = fs, self_encoding = arg_encoding a, self_exclude = arg_exclude a,
                     self_recursive = arg_recursive a, self_exclude_hidden = arg_exclude_hidden a,
                     self_required_exts = arg_required_exts a,
                     self_num_files_limit = arg_num_files_limit a,
                     self_Path = (if fs_is_default fs then PathCls else PurePosixPathCls),
                     self_metadatas = arg_metadatas a, self_input_files = [],
                     self_file_extractor = fe,
                     self_metadata_genf = (case arg_metadata_genf a of
                                             None \<Rightarrow> DefaultFileMetadataFunc e fs
                                           | Some g \<Rightarrow> g),
                     self_metadata_genf_picklable =
                       (case arg_metadata_genf a of
                          None \<Rightarrow> fs_picklable fs
                        | Some g \<Rightarrow> arg_metadata_genf_picklable a)\<rparr>
         in case (case arg_input_files a of
                    Some (p # ps) \<Rightarrow> check_input_files e fs (p # ps)
                  | _ \<Rightarrow>
                      (case arg_input_dir a of
                         None \<Rightarrow> Inr []
                       | Some input_dir \<Rightarrow>
                           if input_dir = [] then Inr []
                           else if \<not> fs_isdir fs input_dir
                           then Inl (ValueError_dir_missing input_dir)
                           else add_files self (Path_of input_dir))) of
              Inl err \<Rightarrow> Inl err
            | Inr files \<Rightarrow> Inr (h', self\<lparr>self_input_files := files\<rparr>)))"

subsection \<open>\<^verbatim>\<open>_load_data\<close>\<close>

text \<open>
  The class attribute \<^verbatim>\<open>default_file_readers\<close>. The reader classes are defined outside
  the file; each is the outcome of instantiating it.
\<close>

record reader_classes =
  PDFReader :: "error + reader"
  DocxReader :: "error + reader"
  HWPReader :: "error + reader"
  PPTXReader :: "error + reader"
  ImageReader :: "error + reader"
  IPYNBReader :: "error + reader"
  EpubReader :: "error + reader"
  MarkdownReader :: "error + reader"
  MboxReader :: "error + reader"
  PandasCSVReader :: "error + reader"
  PandasExcelReader :: "error + reader"
  VideoAudioReader :: "error + reader"

definition default_file_readers :: "reader_classes \<Rightarrow> registry" where
  "default_file_readers rc =
     [(''*.pdf'', ReaderType True (PDFReader rc)),
      (''*.docx'', ReaderType True (DocxReader rc)),
      (''*.hwp'', ReaderType True (HWPReader rc)),
      (''*.pptx'', ReaderType True (PPTXReader rc)),
      (''*.ppt'', ReaderType True (PPTXReader rc)),
      (''*.pptm'', ReaderType True (PPTXReader rc)),
      (''*.gif'', ReaderType True (ImageReader rc)),
      (''*.jpeg'', ReaderType True (ImageReader rc)),
      (''*.jpg'', ReaderType True (ImageReader rc)),
      (''*.png'', ReaderType True (ImageReader rc)),
      (''*.webp'', ReaderType True (ImageReader rc)),
      (''*.ipynb'', ReaderType True (IPYNBReader rc)),
      (''*.epub'', ReaderType True (EpubReader rc)),
      (''*.md'', ReaderType True (MarkdownReader rc)),
      (''*.mbox'', ReaderType True (MboxReader rc)),
      (''*.csv'', ReaderType True (PandasCSVReader rc)),
      (''*.xls'', ReaderType True (PandasExcelReader rc)),
      (''*.xlsx'', ReaderType True (PandasExcelReader rc)),
      (''*.mp3'', ReaderType True (VideoAudioReader rc)),
      (''*.mp4'', ReaderType True (VideoAudioReader rc))]"

definition add_default :: "addr \<Rightarrow> string \<times> extractor \<Rightarrow> heap \<Rightarrow> heap" where
  \<comment> \<open>Line 256: \<^verbatim>\<open>if key not in file_readers: file_readers[key] = func\<close>\<close>
  "add_default file_readers kf h =
     (if fst kf \<in> set (map fst (heap_get h file_readers)) then h
      else heap_set h file_readers (heap_get h file_readers @ [kf]))"

definition make_file_readers :: "heap \<Rightarrow> addr \<Rightarrow> addr \<Rightarrow> heap \<times> addr" where
  \<comment> \<open>Lines 254 to 256: \<^verbatim>\<open>self._file_extractor.copy()\<close> is a new dictionary, into which
      the default entries with a new key are stored.\<close>
  "make_file_readers h file_extractor defaults =
     (let (h1, file_readers) = heap_alloc h (heap_get h file_extractor)
      in (fold (add_default file_readers) (heap_get h1 defaults) h1, file_readers))"

definition zip_metadatas ::
  "path list \<Rightarrow> metadata option list option \<Rightarrow> (path \<times> metadata option) list" where
  \<comment> \<open>\<^verbatim>\<open>zip(process_file, self._metadatas or repeat(None))\<close>: \<^verbatim>\<open>zip\<close> stops at the
      shorter sequence.\<close>
  "zip_metadatas files mds =
     (case mds of
        None \<Rightarrow> map (\<lambda>f. (f, None)) files
      | Some ms \<Rightarrow> if ms = [] then map (\<lambda>f. (f, None)) files else zip files ms)"

definition load_task ::
  "env \<Rightarrow> SimpleDirectoryReader \<Rightarrow> registry \<Rightarrow> path \<times> metadata option \<Rightarrow>
   event list \<times> (error + DocNode list)" where
  \<comment> \<open>The call of \<^verbatim>\<open>load_file\<close> that both branches make for one file.\<close>
  "load_task e self file_readers t =
     load_file e (fst t) (Some (self_metadata_genf self)) file_readers (self_encoding self)
       (self_Path self) (Some (self_fs self)) (snd t)"

fun load_sequential ::
  "('a \<Rightarrow> event list \<times> (error + DocNode list)) \<Rightarrow> 'a list \<Rightarrow> DocNode list \<Rightarrow>
   event list \<times> (error + DocNode list)" where
  \<comment> \<open>Lines 271 to 275: an exception of \<^verbatim>\<open>load_file\<close> leaves the loop.\<close>
  "load_sequential f [] documents = ([], Inr documents)"
| "load_sequential f (t # ts) documents =
     (case f t of
        (lg, Inl err) \<Rightarrow> (lg, Inl err)
      | (lg, Inr docs) \<Rightarrow>
          (case load_sequential f ts (documents @ docs) of (lg', r) \<Rightarrow> (lg @ lg', r)))"

text \<open>
  \<^verbatim>\<open>multiprocessing.Pool.starmap\<close>, as CPython's \<^verbatim>\<open>pool.py\<close> has it: the items are
  cut into chunks of \<open>chunksize\<close> items, a worker runs a chunk, and each chunk's results
  are stored at the chunk's index, whenever it completes. The pool of line 262 is a
  \<^verbatim>\<open>spawn\<close> pool: a chunk reaches its worker pickled, with the arguments of each of its
  calls, and a chunk that \<^verbatim>\<open>pickle\<close> refuses fails the call with that exception and
  never runs. What comes back is lists of document nodes; a node is plain data (its text, a
  metadata record of scalars, an identity, two lists of keys) and comes back as it was.
  With a failed task the call raises; the model reports the failure of lowest index (the
  pool reports the one that completes first). Events of the workers are listed in index
  order.
\<close>

definition chunksize :: "nat \<Rightarrow> nat \<Rightarrow> nat" where
  "chunksize n_items processes =
     (if n_items = 0 then 0
      else (let q = n_items div (processes * 4); extra = n_items mod (processes * 4)
            in if extra \<noteq> 0 then q + 1 else q))"

function get_tasks :: "nat \<Rightarrow> 'a list \<Rightarrow> 'a list list" where
  "get_tasks k xs = (if k = 0 \<or> xs = [] then [] else take k xs # get_tasks k (drop k xs))"
  by pat_completeness auto
termination
  by (relation "measure (\<lambda>(k, xs). length xs)") auto

fun collect :: "(error + 'b) list \<Rightarrow> error + 'b list" where
  "collect [] = Inr []"
| "collect (Inl err # rs) = Inl err"
| "collect (Inr v # rs) = (case collect rs of Inl err \<Rightarrow> Inl err | Inr vs \<Rightarrow> Inr (v # vs))"

definition run_batch ::
  "bool \<Rightarrow> ('a \<Rightarrow> event list \<times> (error + 'b)) \<Rightarrow> 'a list \<Rightarrow> (event list \<times> (error + 'b)) list" where
  \<comment> \<open>One chunk: its calls, run by a worker, when the chunk can be pickled.\<close>
  "run_batch args_picklable f batch =
     (if args_picklable then map f batch else [([], Inl PicklingError)])"

definition starmap ::
  "nat \<Rightarrow> bool \<Rightarrow> ('a \<Rightarrow> event list \<times> (error + 'b)) \<Rightarrow> 'a list \<Rightarrow>
   event list \<times> (error + 'b list)" where
  "starmap processes args_picklable f iterable =
     (let batches = get_tasks (chunksize (length iterable) processes) iterable;
          outcomes = concat (map (run_batch args_picklable f) batches)
      in (concat (map fst outcomes), collect (map snd outcomes)))"

definition reduce_concat :: "DocNode list list \<Rightarrow> error + DocNode list" where
  \<comment> \<open>\<^verbatim>\<open>reduce(lambda x, y: x + y, results)\<close>: no initial value, so an empty sequence
      raises \<^verbatim>\<open>TypeError\<close>.\<close>
  "reduce_concat results =
     (case results of [] \<Rightarrow> Inl TypeError_reduce_empty | x # xs \<Rightarrow> Inr (foldl (@) x xs))"

definition file_meta_keys :: "string list" where
  "file_meta_keys =
     [''file_name'', ''file_type'', ''file_size'', ''creation_date'',
      ''last_modified_date'', ''last_accessed_date'']"

definition exclude_metadata :: "DocNode list \<Rightarrow> DocNode list" where
  \<comment> \<open>\<^verbatim>\<open>_exclude_metadata\<close>\<close>
  "exclude_metadata documents =
     map (\<lambda>doc. doc\<lparr>excluded_embed_metadata_keys := excluded_embed_metadata_keys doc @ file_meta_keys,
                     excluded_llm_metadata_keys := excluded_llm_metadata_keys doc @ file_meta_keys\<rparr>)
       documents"

definition use_pool :: "int option \<Rightarrow> bool" where
  \<comment> \<open>\<^verbatim>\<open>num_workers and num_workers >= 1\<close>\<close>
  "use_pool num_workers = (case num_workers of None \<Rightarrow> False | Some n \<Rightarrow> n \<noteq> 0 \<and> n \<ge> 1)"

definition task_picklable :: "SimpleDirectoryReader \<Rightarrow> registry \<Rightarrow> bool" where
  \<comment> \<open>Whether \<^verbatim>\<open>pickle\<close> accepts the arguments of a call of \<^verbatim>\<open>load_file\<close> that the
      pool makes (lines 263 to 266): the metadata function, the registry with every reader in
      it, and the filesystem. The path, the encoding, the path class and a metadata record
      are plain data.\<close>
  "task_picklable self file_readers =
     (self_metadata_genf_picklable self \<and> fs_picklable (self_fs self)
      \<and> list_all (\<lambda>kf. picklable (snd kf)) file_readers)"

definition load_pool ::
  "env \<Rightarrow> nat \<Rightarrow> bool \<Rightarrow> ('a \<Rightarrow> event list \<times> (error + DocNode list)) \<Rightarrow> 'a list \<Rightarrow>
   event list \<times> (error + DocNode list)" where
  \<comment> \<open>Lines 259 to 267. The pool is made with \<^verbatim>\<open>num_workers\<close> as it was passed.\<close>
  "load_pool e num_workers args_picklable f tasks =
     (let warn = (if num_workers > cpu_count e then [WarnNumWorkers] else []) in
      case starmap num_workers args_picklable f tasks of
        (lg, Inl err) \<Rightarrow> (warn @ [PoolCreated num_workers] @ lg, Inl err)
      | (lg, Inr results) \<Rightarrow> (warn @ [PoolCreated num_workers] @ lg, reduce_concat results))"

definition load_data ::
  "env \<Rightarrow> heap \<Rightarrow> addr \<Rightarrow> SimpleDirectoryReader \<Rightarrow> bool \<Rightarrow> int option \<Rightarrow> filesystem option \<Rightarrow>
   heap \<times> event list \<times> (error + DocNode list)" where
  \<comment> \<open>\<^verbatim>\<open>_load_data\<close>. \<open>defaults\<close> is the address of the class attribute
      \<^verbatim>\<open>default_file_readers\<close>. The local \<^verbatim>\<open>fs\<close> of line 252 is not read again, and
      \<^verbatim>\<open>show_progress\<close> only wraps the iteration in a progress bar.\<close>
  "load_data e h defaults self show_progress num_workers fs =
     (let (h', fr) = make_file_readers h (self_file_extractor self) defaults;
          file_readers = heap_get h' fr;
          tasks = zip_metadatas (self_input_files self) (self_metadatas self);
          (lg, res) = (if use_pool num_workers
                       then load_pool e (nat (case num_workers of None \<Rightarrow> 0 | Some n \<Rightarrow> n))
                              (task_picklable self file_readers)
                              (load_task e self file_readers) tasks
                       else load_sequential (load_task e self file_readers) tasks [])
      in (h', lg, (case res of Inl err \<Rightarrow> Inl err | Inr documents \<Rightarrow> Inr (exclude_metadata documents))))"

subsection \<open>The properties of the specification\<close>

definition three_tier_merge :: "metadata \<Rightarrow> metadata \<Rightarrow> metadata \<Rightarrow> string \<Rightarrow> mval option" where
  \<comment> \<open>The specification's merged record: for each key the caller's value, else the
      reader's, else the generated one.\<close>
  "three_tier_merge generated reader_attached caller k =
     (case map_of caller k of
        Some v \<Rightarrow> Some v
      | None \<Rightarrow> (case map_of reader_attached k of
                   Some v \<Rightarrow> Some v
                 | None \<Rightarrow> map_of generated k))"

definition pattern_matches :: "env \<Rightarrow> pathm \<Rightarrow> string \<Rightarrow> string \<Rightarrow> bool" where
  \<comment> \<open>The test of line 217 for one pattern, when computing the match target succeeds.\<close>
  "pattern_matches e pm filename_lower pattern =
     (case match_target e pm pattern of Inl _ \<Rightarrow> False | Inr t \<Rightarrow> fnmatch e filename_lower t)"

definition merge_readers :: "registry \<Rightarrow> registry \<Rightarrow> registry" where
  \<comment> \<open>The items of \<^verbatim>\<open>file_readers\<close> after lines 254 to 256, from the items of the
      caller's dictionary and of the default table.\<close>
  "merge_readers caller defaults =
     fold (\<lambda>kf acc. if fst kf \<in> set (map fst acc) then acc else acc @ [kf]) defaults caller"

definition file_readers_of :: "heap \<Rightarrow> addr \<Rightarrow> addr \<Rightarrow> registry" where
  \<comment> \<open>The items of the dictionary \<^verbatim>\<open>file_readers\<close> that \<^verbatim>\<open>_load_data\<close> passes to
      \<^verbatim>\<open>load_file\<close>.\<close>
  "file_readers_of h file_extractor defaults =
     heap_get (fst (make_file_readers h file_extractor defaults))
       (snd (make_file_readers h file_extractor defaults))"

definition tasks_of :: "SimpleDirectoryReader \<Rightarrow> (path \<times> metadata option) list" where
  \<comment> \<open>The files that \<^verbatim>\<open>_load_data\<close> loads, each with its metadata override.\<close>
  "tasks_of self = zip_metadatas (self_input_files self) (self_metadatas self)"

definition in_order ::
  "('a \<Rightarrow> event list \<times> (error + DocNode list)) \<Rightarrow> 'a list \<Rightarrow> error + DocNode list" where
  \<comment> \<open>The nodes of the files in file-list order: the results of \<open>f\<close> on each item,
      concatenated; an exception when an item has one.\<close>
  "in_order f ts =
     (case collect (map (\<lambda>t. snd (f t)) ts) of Inl err \<Rightarrow> Inl err | Inr rs \<Rightarrow> Inr (concat rs))"

subsection \<open>A concrete environment\<close>

text \<open>
  A small filesystem, registry and configuration on which the theorems are instantiated.
  \<open>wild_match\<close> is \<^verbatim>\<open>fnmatch\<close> for patterns made of literal characters, \<open>*\<close> and
  \<open>?\<close>; \<open>ascii_decode\<close> decodes the bytes below 128 and fails on any other.
\<close>

fun wild_match :: "string \<Rightarrow> string \<Rightarrow> bool" where
  "wild_match [] s = (s = [])"
| "wild_match (p # ps) s =
     (if p = CHR ''*''
      then (wild_match ps s \<or> (case s of [] \<Rightarrow> False | _ # t \<Rightarrow> wild_match (p # ps) t))
      else (case s of [] \<Rightarrow> False | c # t \<Rightarrow> (p = CHR ''?'' \<or> p = c) \<and> wild_match ps t))"

definition ascii_decode :: "string \<Rightarrow> string \<Rightarrow> string option" where
  "ascii_decode encoding raw =
     (if list_all (\<lambda>c. of_char c < (128::nat)) raw then Some raw else None)"

definition demo_fs :: filesystem where
  "demo_fs =
     \<lparr>fs_is_default = True, fs_picklable = True,
      fs_isfile = (\<lambda>p. p \<in> set [''/data/a.md'', ''/data/b.txt'', ''/data/c.bin'']),
      fs_isdir = (\<lambda>p. p \<in> set [''/data'', ''/data/sub'', ''/home/u/.cache/docs'']),
      fs_glob = (\<lambda>g. if g = ''/data/*''
                      then [''/data/b.txt'', ''/data/a.md'', ''/data/sub'', ''/data/c.bin'',
                            ''/data/.env'', ''/data/a.md'']
                      else if g = ''/home/u/.cache/docs/*'' then [''/home/u/.cache/docs/x.md'']
                      else []),
      fs_parent = (\<lambda>p. path_str (butlast (Path_of p))),
      fs_open = (\<lambda>p encoding.
                   if p = ''/data/b.txt'' then Inr (Inr ''hello'')
                   else if p = ''/data/c.bin'' then Inr (Inr [CHR 0xFF, CHR 0xFE])
                   else Inl (Raised ''FileNotFoundError''))\<rparr>"

definition demo_genf :: metadata_func where
  "demo_genf p = Inr [(''file_size'', IntV 10)]"

definition demo_env :: env where
  "demo_env =
     \<lparr>cwd = ''/work'', fnmatch = (\<lambda>name pat. wild_match pat name), decode = ascii_decode,
      rag_filename_as_id = False, use_fallback_reader = True, data_path = ''/data'',
      cpu_count = 4, get_default_fs = demo_fs, DefaultFileMetadataFunc = (\<lambda>fs. demo_genf)\<rparr>"

definition demo_reader :: reader where
  "demo_reader p kwargs =
     Inr (NodeList [new_DocNode ''markdown'' [(''file_size'', IntV 20), (''lang'', StrV ''en'')]])"

definition failing_reader :: reader where
  "failing_reader p kwargs = Inl (Raised ''boom'')"

definition demo_classes :: reader_classes where
  "demo_classes =
     \<lparr>PDFReader = Inr failing_reader, DocxReader = Inr failing_reader,
      HWPReader = Inr failing_reader, PPTXReader = Inr failing_reader,
      ImageReader = Inr failing_reader, IPYNBReader = Inr failing_reader,
      EpubReader = Inr failing_reader, MarkdownReader = Inr failing_reader,
      MboxReader = Inr failing_reader, PandasCSVReader = Inr failing_reader,
      PandasExcelReader = Inr failing_reader, VideoAudioReader = Inr failing_reader\<rparr>"

definition demo_heap :: heap where
  "demo_heap =
     \<lparr>cells = (\<lambda>a. if a = 0 then Some (default_file_readers demo_classes)
                    else if a = 1 then Some [(''*.md'', ReaderInstance True demo_reader)]
                    else if a = 2 then Some [(''*.md'', ReaderInstance True failing_reader)]
                    else if a = 3 then Some [(''*.md'', ReaderInstance False demo_reader)]
                    else None),
      next_free = 4\<rparr>"

definition demo_self :: SimpleDirectoryReader where
  "demo_self =
     \<lparr>self_fs = demo_fs, self_encoding = ''utf-8'', self_exclude = None, self_recursive = False,
      self_exclude_hidden = True, self_required_exts = None, self_num_files_limit = Some 2,
      self_Path = PathCls, self_metadatas = None,
      self_input_files = [[''/'', ''data'', ''a.md''], [''/'', ''data'', ''b.txt'']],
      self_file_extractor = 1, self_metadata_genf = demo_genf,
      self_metadata_genf_picklable = True\<rparr>"

definition demo_args :: init_args where
  "demo_args =
     \<lparr>arg_input_dir = None, arg_input_files = Some [''/data/a.md'', ''b.txt''],
      arg_exclude = None, arg_exclude_hidden = True, arg_recursive = False,
      arg_encoding = ''utf-8'', arg_required_exts = None, arg_file_extractor = Some 1,
      arg_fs = Some demo_fs, arg_metadata_genf = Some demo_genf,
      arg_metadata_genf_picklable = True,
      arg_num_files_limit = Some 2, arg_metadatas = None\<rparr>"

section \<open>Metadata merge and fallback (\<^verbatim>\<open>load_file\<close>)\<close>

lemma map_of_dict_update: "map_of (dict_update d other) = map_of d ++ map_of (rev other)"
  unfolding dict_update_def
proof (induction other arbitrary: d)
  case Nil
  show ?case by simp
next
  case (Cons kv other)
  obtain k v where kv: "kv = (k, v)" by (cases kv)
  show ?case
    by (simp add: kv Cons.IH update_conv' map_add_upd_left fun_eq_iff map_add_def split: option.splits)
qed

lemma map_of_rev_distinct: "distinct (map fst xs) \<Longrightarrow> map_of (rev xs) = map_of xs"
  by (subst map_of_inject_set) (simp_all add: rev_map[symmetric])

lemma merge_metadata_lookup:
  assumes "distinct (map fst (global_metadata doc))" and "distinct (map fst usr)"
  shows "map_of (global_metadata (merge_metadata gen usr doc)) = three_tier_merge gen (global_metadata doc) usr"
  using assms
  by (auto simp: merge_metadata_def map_of_dict_update map_of_rev_distinct three_tier_merge_def fun_eq_iff map_add_def split: option.splits)

lemma length_set_uids: "length (set_uids f ds) = length ds"
  by (simp add: set_uids_def)

lemma global_metadata_set_uids: "i < length ds \<Longrightarrow> global_metadata (set_uids f ds ! i) = global_metadata (ds ! i)"
  by (simp add: set_uids_def nth_enumerate_eq)

lemma node_text_set_uids: "i < length ds \<Longrightarrow> node_text (set_uids f ds ! i) = node_text (ds ! i)"
  by (simp add: set_uids_def nth_enumerate_eq)

lemma read_docs_ok:
  assumes "get_reader ex = Inr rd" and "rd f (reader_kwargs fs) = Inr res"
  shows "\<exists>docs. read_docs e f gen usr fs ex = ([], Inr docs) \<and> length docs = length (nodes_of res)
     \<and> (\<forall>i<length docs. global_metadata (docs ! i) = global_metadata (merge_metadata gen usr (nodes_of res ! i))
          \<and> node_text (docs ! i) = node_text (nodes_of res ! i))"
  using assms
  by (simp add: read_docs_def Let_def length_set_uids global_metadata_set_uids node_text_set_uids merge_metadata_def)

lemma demo_match_target_md: "match_target demo_env PathCls ''*.md'' = Inr ''*.md''"
  by (simp add: match_target_def Path_of_def path_str_def has_root_def str_lower_def suffix_to_prefix pathm_cwd_def)

lemma demo_a_md_lower: "str_lower (path_str [''/'', ''data'', ''a.md'']) = ''/data/a.md''"
  by (simp add: path_str_def has_root_def str_lower_def)

lemma demo_b_txt_lower: "str_lower (path_str [''/'', ''data'', ''b.txt'']) = ''/data/b.txt''"
  by (simp add: path_str_def has_root_def str_lower_def)

lemma demo_fnmatch_a_md: "fnmatch demo_env ''/data/a.md'' ''*.md''"
  by (simp add: demo_env_def)

lemma demo_fnmatch_b_txt: "\<not> fnmatch demo_env ''/data/b.txt'' ''*.md''"
  by (simp add: demo_env_def)

lemma fallback_when_unmatched:
  assumes "find_extractor e pm (str_lower (path_str f)) reg = Inr None"
    and "(case genf of None \<Rightarrow> Inr [] | Some g \<Rightarrow> g (path_str f)) = Inr gen"
  shows "load_file e f genf reg enc pm fs md =
           fallback_read e f (case md of None \<Rightarrow> [] | Some m \<Rightarrow> m) enc fs"
  using assms by (simp add: load_file_def)

lemma demo_path_b: "path_str [''/'', ''data'', ''b.txt''] = ''/data/b.txt''"
  by (simp add: path_str_def has_root_def)

lemma demo_find_b_txt:
  "find_extractor demo_env PathCls (str_lower (path_str [''/'', ''data'', ''b.txt'']))
     [(''*.md'', ReaderInstance True demo_reader)] = Inr None"
  by (simp add: demo_match_target_md demo_b_txt_lower demo_fnmatch_b_txt)

lemma demo_fallback_b:
  "fallback_read demo_env [''/'', ''data'', ''b.txt''] [] ''utf-8'' (Some demo_fs)
     = ([], Inr [new_DocNode ''hello'' []])"
  by (simp add: fallback_read_def demo_path_b demo_env_def demo_fs_def ascii_decode_def)

text \<open>
  C1 (as amended). When the file's name matches a registry pattern and the reader
  returns, \<^verbatim>\<open>load_file\<close> returns one node for each node of the reader, and the
  metadata record of each is the three-tier merge: the caller's value for a key, else the
  value the reader attached, else the generated one. The dictionaries have pairwise
  distinct keys, as every \<^verbatim>\<open>dict\<close> has.
\<close>

theorem load_file_merges_on_match:
  assumes matched: "find_extractor e pm (str_lower (path_str f)) reg = Inr (Some (pat, ex))"
    and gen: "(case genf of None \<Rightarrow> Inr [] | Some g \<Rightarrow> g (path_str f)) = Inr gen"
    and rd: "get_reader ex = Inr rd"
    and res: "rd f (reader_kwargs fs) = Inr res"
    and wf_reader: "\<forall>d \<in> set (nodes_of res). distinct (map fst (global_metadata d))"
    and wf_caller: "distinct (map fst (case md of None \<Rightarrow> [] | Some m \<Rightarrow> m))"
  shows "\<exists>docs. snd (load_file e f genf reg enc pm fs md) = Inr docs
           \<and> length docs = length (nodes_of res)
           \<and> (\<forall>i < length docs.
                 map_of (global_metadata (docs ! i)) =
                 three_tier_merge gen (global_metadata (nodes_of res ! i))
                   (case md of None \<Rightarrow> [] | Some m \<Rightarrow> m))"
proof -
  let ?usr = "case md of None \<Rightarrow> [] | Some m \<Rightarrow> m"
  have lf: "load_file e f genf reg enc pm fs md = read_docs e f gen ?usr fs ex"
    using matched gen by (simp add: load_file_def)
  obtain docs where d: "read_docs e f gen ?usr fs ex = ([], Inr docs)"
      "length docs = length (nodes_of res)"
      "\<forall>i<length docs. global_metadata (docs ! i) = global_metadata (merge_metadata gen ?usr (nodes_of res ! i))
          \<and> node_text (docs ! i) = node_text (nodes_of res ! i)"
    using read_docs_ok[OF rd res] by blast
  have "map_of (global_metadata (docs ! i)) = three_tier_merge gen (global_metadata (nodes_of res ! i)) ?usr"
    if "i < length docs" for i
  proof -
    have "nodes_of res ! i \<in> set (nodes_of res)" using that d(2) by simp
    then have "distinct (map fst (global_metadata (nodes_of res ! i)))" using wf_reader by blast
    then show ?thesis using d(3) that wf_caller by (simp add: merge_metadata_lookup)
  qed
  then show ?thesis using lf d by auto
qed


theorem load_file_merges_on_match_witness:
  "\<exists>docs. snd (load_file demo_env [''/'', ''data'', ''a.md''] (Some demo_genf)
                  [(''*.md'', ReaderInstance True demo_reader)] ''utf-8'' PathCls (Some demo_fs)
                  (Some [(''file_size'', IntV 30)])) = Inr docs
     \<and> length docs = 1
     \<and> map_of (global_metadata (docs ! 0)) = map_of [(''file_size'', IntV 30), (''lang'', StrV ''en'')]"
proof -
  let ?f = "[''/'', ''data'', ''a.md'']"
  let ?node = "new_DocNode ''markdown'' [(''file_size'', IntV 20), (''lang'', StrV ''en'')]"
  have m: "find_extractor demo_env PathCls (str_lower (path_str ?f)) [(''*.md'', ReaderInstance True demo_reader)]
             = Inr (Some (''*.md'', ReaderInstance True demo_reader))"
    by (simp add: demo_match_target_md demo_a_md_lower demo_fnmatch_a_md)
  have g: "(case Some demo_genf of None \<Rightarrow> Inr [] | Some g \<Rightarrow> g (path_str ?f)) = Inr [(''file_size'', IntV 10)]"
    by (simp add: demo_genf_def)
  have r: "get_reader (ReaderInstance True demo_reader) = Inr demo_reader"
    by (simp add: get_reader_def)
  have res: "demo_reader ?f (reader_kwargs (Some demo_fs)) = Inr (NodeList [?node])"
    by (simp add: demo_reader_def)
  have wf1: "\<forall>d \<in> set (nodes_of (NodeList [?node])). distinct (map fst (global_metadata d))"
    by (simp add: nodes_of_def new_DocNode_def)
  have wf2: "distinct (map fst (case Some [(''file_size'', IntV 30)] of None \<Rightarrow> [] | Some m \<Rightarrow> m))"
    by simp
  have eq: "three_tier_merge [(''file_size'', IntV 10)] [(''file_size'', IntV 20), (''lang'', StrV ''en'')]
              [(''file_size'', IntV 30)] = map_of [(''file_size'', IntV 30), (''lang'', StrV ''en'')]"
    by (auto simp: three_tier_merge_def fun_eq_iff)
  from load_file_merges_on_match[OF m g r res wf1 wf2, of "''utf-8''"]
  show ?thesis
    by (auto simp: nodes_of_def new_DocNode_def eq)
qed


text \<open>
  C1 as stated fails for a file that no pattern matches: the node of the fallback reader
  carries the caller's metadata only. With generated \<open>{file_size: 10}\<close> and no caller
  metadata its record has no \<open>file_size\<close>, where the three-tier merge has \<open>10\<close>.
\<close>

theorem fallback_node_counterexample:
  "load_file demo_env [''/'', ''data'', ''b.txt''] (Some demo_genf)
       [(''*.md'', ReaderInstance True demo_reader)] ''utf-8'' PathCls (Some demo_fs) None
     = ([], Inr [new_DocNode ''hello'' []])
   \<and> map_of (global_metadata (new_DocNode ''hello'' [])) ''file_size'' = None
   \<and> three_tier_merge [(''file_size'', IntV 10)] [] [] ''file_size'' = Some (IntV 10)"
proof -
  have g: "(case Some demo_genf of None \<Rightarrow> Inr [] | Some g \<Rightarrow> g (path_str [''/'', ''data'', ''b.txt'']))
             = Inr [(''file_size'', IntV 10)]"
    by (simp add: demo_genf_def)
  show ?thesis
    using fallback_when_unmatched[OF demo_find_b_txt g, of "''utf-8''" "Some demo_fs" None]
    by (simp add: demo_fallback_b new_DocNode_def three_tier_merge_def)
qed






section \<open>The registry and dispatch\<close>

lemma find_extractor_append:
  "find_extractor e pm fl (xs @ ys) =
     (case find_extractor e pm fl xs of Inr None \<Rightarrow> find_extractor e pm fl ys | r \<Rightarrow> r)"
  by (induction xs) (auto split: sum.splits option.splits if_splits)


lemma merge_readers_shape:
  "\<exists>extra. merge_readers caller defaults = caller @ extra \<and> set extra \<subseteq> set defaults
      \<and> (\<forall>kf \<in> set extra. fst kf \<notin> set (map fst caller))"
  unfolding merge_readers_def
proof (induction defaults arbitrary: caller)
  case Nil
  show ?case by simp
next
  case (Cons kf defaults)
  show ?case
  proof (cases "fst kf \<in> set (map fst caller)")
    case True
    then show ?thesis using Cons.IH[of caller] by auto
  next
    case False
    obtain extra where ex: "fold (\<lambda>kf acc. if fst kf \<in> set (map fst acc) then acc else acc @ [kf]) defaults (caller @ [kf]) = (caller @ [kf]) @ extra"
      "set extra \<subseteq> set defaults" "\<forall>x \<in> set extra. fst x \<notin> set (map fst (caller @ [kf]))"
      using Cons.IH[of "caller @ [kf]"] by blast
    have "fold (\<lambda>kf acc. if fst kf \<in> set (map fst acc) then acc else acc @ [kf]) (kf # defaults) caller = caller @ (kf # extra)"
      using False ex(1) by simp
    moreover have "set (kf # extra) \<subseteq> set (kf # defaults)" using ex(2) by auto
    moreover have "\<forall>x \<in> set (kf # extra). fst x \<notin> set (map fst caller)" using ex(3) False by auto
    ultimately show ?thesis by blast
  qed
qed

lemma fold_add_default:
  "heap_get (fold (add_default fr) ds h) fr = merge_readers (heap_get h fr) ds
   \<and> next_free (fold (add_default fr) ds h) = next_free h
   \<and> (\<forall>x. x \<noteq> fr \<longrightarrow> cells (fold (add_default fr) ds h) x = cells h x)"
proof (induction ds arbitrary: h)
  case Nil
  show ?case by (simp add: merge_readers_def)
next
  case (Cons kf ds)
  have step: "heap_get (add_default fr kf h) fr =
       (if fst kf \<in> set (map fst (heap_get h fr)) then heap_get h fr else heap_get h fr @ [kf])"
    by (simp add: add_default_def heap_get_def heap_set_def)
  have nf: "next_free (add_default fr kf h) = next_free h"
    by (simp add: add_default_def heap_set_def)
  have other: "\<forall>x. x \<noteq> fr \<longrightarrow> cells (add_default fr kf h) x = cells h x"
    by (simp add: add_default_def heap_set_def)
  show ?case using Cons.IH[of "add_default fr kf h"] step nf other
    by (simp add: merge_readers_def)
qed

lemma make_file_readers_content:
  assumes "a < next_free h" and "d < next_free h"
  shows "heap_get (fst (make_file_readers h a d)) (snd (make_file_readers h a d))
           = merge_readers (heap_get h a) (heap_get h d)"
    and "snd (make_file_readers h a d) = next_free h"
    and "\<forall>x. x \<noteq> next_free h \<longrightarrow> cells (fst (make_file_readers h a d)) x = cells h x"
  using assms fold_add_default[of "next_free h" "heap_get h d"
      "h\<lparr>cells := (cells h)(next_free h := Some (heap_get h a)), next_free := Suc (next_free h)\<rparr>"]
  by (simp_all add: make_file_readers_def heap_alloc_def heap_get_def)

lemma match_target_star:
  "prefix ''*'' (str_lower (path_str (Path_of p))) \<Longrightarrow>
   match_target e PathCls p = Inr (str_lower (path_str (Path_of p)))"
  by (simp add: match_target_def pathm_cwd_def Let_def)

lemma match_target_PathCls: "\<exists>t. match_target e PathCls p = Inr t"
  by (simp add: match_target_def pathm_cwd_def Let_def)

lemma find_extractor_PathCls:
  "find_extractor e PathCls fl reg = Inr (List.find (\<lambda>qx. pattern_matches e PathCls fl (fst qx)) reg)"
proof (induction reg)
  case Nil
  show ?case by simp
next
  case (Cons a reg)
  obtain q x where a: "a = (q, x)" by (cases a)
  obtain t where t: "match_target e PathCls q = Inr t" using match_target_PathCls by blast
  show ?case using Cons.IH a t by (simp add: pattern_matches_def)
qed

lemma demo_defaults_unmatched_b:
  "find_extractor demo_env PathCls ''/data/b.txt'' (default_file_readers demo_classes) = Inr None"
  by (simp add: default_file_readers_def match_target_star Path_of_def path_str_def has_root_def
      str_lower_def demo_env_def)


lemma file_readers_of_merge:
  "a < next_free h \<Longrightarrow> d < next_free h \<Longrightarrow>
   file_readers_of h a d = merge_readers (heap_get h a) (heap_get h d)"
  unfolding file_readers_of_def by (rule make_file_readers_content(1))

lemma find_extractor_caller_first:
  assumes "find_extractor e pm fl caller = Inr (Some pe)"
  shows "find_extractor e pm fl (merge_readers caller defaults) = Inr (Some pe)"
proof -
  obtain extra where "merge_readers caller defaults = caller @ extra"
    using merge_readers_shape by blast
  then show ?thesis using assms by (simp add: find_extractor_append)
qed

lemma find_extractor_merge_None:
  assumes "find_extractor e PathCls fl caller = Inr None"
    and "find_extractor e PathCls fl defaults = Inr None"
  shows "find_extractor e PathCls fl (merge_readers caller defaults) = Inr None"
proof -
  obtain extra where ex: "merge_readers caller defaults = caller @ extra" "set extra \<subseteq> set defaults"
    using merge_readers_shape by blast
  have "List.find (\<lambda>qx. pattern_matches e PathCls fl (fst qx)) defaults = None"
    using assms(2) by (simp add: find_extractor_PathCls)
  then have "List.find (\<lambda>qx. pattern_matches e PathCls fl (fst qx)) extra = None"
    using ex(2) by (auto simp: find_None_iff)
  then show ?thesis using assms(1) ex(1)
    by (simp add: find_extractor_append find_extractor_PathCls)
qed



lemma fst_load_data:
  "fst (load_data e h d self sp nw fs) = fst (make_file_readers h (self_file_extractor self) d)"
  by (simp add: load_data_def Let_def split_def)

text \<open>
  C9. \<^verbatim>\<open>_load_data\<close> leaves the caller's \<^verbatim>\<open>file_extractor\<close> dictionary and the class
  table \<^verbatim>\<open>default_file_readers\<close> as they were, as every dictionary that existed before the
  call: the merged registry is a new dictionary, at an address that was free.
\<close>

theorem load_data_keeps_registries:
  assumes "self_file_extractor self < next_free h" and "defaults < next_free h"
  shows "heap_get (fst (load_data e h defaults self sp nw fs)) (self_file_extractor self)
           = heap_get h (self_file_extractor self)
       \<and> heap_get (fst (load_data e h defaults self sp nw fs)) defaults = heap_get h defaults
       \<and> (\<forall>x. x < next_free h \<longrightarrow> cells (fst (load_data e h defaults self sp nw fs)) x = cells h x)
       \<and> snd (make_file_readers h (self_file_extractor self) defaults) = next_free h"
  using assms make_file_readers_content(2,3)[OF assms]
  by (simp add: fst_load_data heap_get_def)


lemma demo_heap_get1: "heap_get demo_heap 1 = [(''*.md'', ReaderInstance True demo_reader)]"
  by (simp add: heap_get_def demo_heap_def)

lemma demo_heap_get2: "heap_get demo_heap 2 = [(''*.md'', ReaderInstance True failing_reader)]"
  by (simp add: heap_get_def demo_heap_def)

lemma demo_heap_get3: "heap_get demo_heap 3 = [(''*.md'', ReaderInstance False demo_reader)]"
  by (simp add: heap_get_def demo_heap_def)

lemma demo_heap_get0: "heap_get demo_heap 0 = default_file_readers demo_classes"
  by (simp add: heap_get_def demo_heap_def)

lemma demo_heap_next: "next_free demo_heap = 4"
  by (simp add: demo_heap_def)



theorem load_data_keeps_registries_witness:
  "heap_get (fst (load_data demo_env demo_heap 0 demo_self False (Some 2) None)) 1
     = [(''*.md'', ReaderInstance True demo_reader)]
   \<and> heap_get (fst (load_data demo_env demo_heap 0 demo_self False (Some 2) None)) 0
     = default_file_readers demo_classes
   \<and> snd (make_file_readers demo_heap 1 0) = 4"
proof -
  have a: "self_file_extractor demo_self < next_free demo_heap"
    by (simp add: demo_heap_next demo_self_def)
  have d: "(0::nat) < next_free demo_heap"
    by (simp add: demo_heap_next)
  have s: "self_file_extractor demo_self = 1" by (simp add: demo_self_def)
  from load_data_keeps_registries[OF a d, of demo_env False "Some 2" None]
  show ?thesis
    by (simp add: s demo_heap_get1 demo_heap_get0 demo_heap_next del: One_nat_def)
qed

section \<open>The sequential and the pooled loader\<close>

lemma concat_get_tasks: "0 < k \<Longrightarrow> concat (get_tasks k xs) = xs"
proof (induction k xs rule: get_tasks.induct)
  case (1 k xs)
  show ?case
  proof (cases "xs = []")
    case True
    then show ?thesis by (subst get_tasks.simps) simp
  next
    case False
    then have "concat (get_tasks k (drop k xs)) = drop k xs"
      using "1.IH" "1.prems" by simp
    then show ?thesis using False "1.prems" by (subst get_tasks.simps) simp
  qed
qed

lemma chunksize_pos: "0 < n \<Longrightarrow> 0 < p \<Longrightarrow> 0 < chunksize n p"
proof -
  assume n: "0 < n" and p: "0 < p"
  show ?thesis
  proof (cases "n mod (p * 4) = 0")
    case True
    then have "n = (n div (p * 4)) * (p * 4)" by (simp add: mod_eq_0_iff_dvd)
    then have "0 < n div (p * 4)" using n by (cases "n div (p * 4)") auto
    then show ?thesis using True n by (simp add: chunksize_def Let_def)
  next
    case False
    then show ?thesis using n by (simp add: chunksize_def Let_def)
  qed
qed

lemma run_batch_True: "run_batch True f = map f"
  by (simp add: fun_eq_iff run_batch_def)

lemma starmap_eq:
  assumes "0 < p"
  shows "starmap p True f xs = (concat (map fst (map f xs)), collect (map snd (map f xs)))"
proof (cases "xs = []")
  case True
  then show ?thesis by (simp add: starmap_def chunksize_def)
next
  case False
  then have "0 < chunksize (length xs) p" using assms by (simp add: chunksize_pos)
  then have "concat (get_tasks (chunksize (length xs) p) xs) = xs" by (rule concat_get_tasks)
  then have "concat (map (map f) (get_tasks (chunksize (length xs) p) xs)) = map f xs"
    by (metis map_concat)
  then show ?thesis by (simp add: starmap_def Let_def run_batch_True)
qed

lemma starmap_unpicklable:
  assumes "0 < p" and "xs \<noteq> []"
  shows "snd (starmap p False f xs) = Inl PicklingError"
proof -
  let ?k = "chunksize (length xs) p"
  have k: "0 < ?k" using assms by (simp add: chunksize_pos)
  have "get_tasks ?k xs = take ?k xs # get_tasks ?k (drop ?k xs)"
    using k assms(2) by (subst get_tasks.simps) simp
  then show ?thesis by (simp add: starmap_def Let_def run_batch_def)
qed

lemma collect_Inr_iff: "collect xs = Inr rs \<longleftrightarrow> xs = map Inr rs"
proof (induction xs arbitrary: rs)
  case Nil
  show ?case by auto
next
  case (Cons x xs)
  note IH = Cons.IH
  show ?case
  proof (cases x)
    case (Inl err)
    then show ?thesis by (cases rs) auto
  next
    case (Inr v)
    show ?thesis
    proof (cases rs)
      case Nil
      then show ?thesis using Inr by (simp split: sum.splits)
    next
      case (Cons r rs')
      have "collect xs = Inr rs' \<longleftrightarrow> xs = map Inr rs'" by (rule IH)
      then show ?thesis using Inr Cons by (auto split: sum.splits)
    qed
  qed
qed

lemma in_order_Nil: "in_order f [] = Inr []"
  by (simp add: in_order_def)

lemma in_order_Cons:
  "in_order f (t # ts) =
     (case snd (f t) of Inl err \<Rightarrow> Inl err
      | Inr docs \<Rightarrow> (case in_order f ts of Inl err \<Rightarrow> Inl err | Inr rest \<Rightarrow> Inr (docs @ rest)))"
  by (simp add: in_order_def split: sum.splits)

lemma load_sequential_snd:
  "snd (load_sequential f ts acc) =
     (case in_order f ts of Inl err \<Rightarrow> Inl err | Inr docs \<Rightarrow> Inr (acc @ docs))"
proof (induction ts arbitrary: acc)
  case Nil
  show ?case by (simp add: in_order_Nil)
next
  case (Cons t ts)
  obtain lg r where ft: "f t = (lg, r)" by (cases "f t")
  show ?case
  proof (cases r)
    case (Inl err)
    then show ?thesis using ft by (simp add: in_order_Cons)
  next
    case (Inr docs)
    obtain lg' r' where rest: "load_sequential f ts (acc @ docs) = (lg', r')"
      by (cases "load_sequential f ts (acc @ docs)")
    have "r' = (case in_order f ts of Inl err \<Rightarrow> Inl err | Inr ds \<Rightarrow> Inr ((acc @ docs) @ ds))"
      using Cons.IH[of "acc @ docs"] rest by simp
    then show ?thesis using ft Inr rest by (simp add: in_order_Cons split: sum.splits)
  qed
qed

lemma foldl_append_concat: "foldl (@) x xs = x @ concat xs"
  by (induction xs arbitrary: x) simp_all

lemma load_pool_snd:
  assumes "0 < n" and "ts \<noteq> []"
  shows "snd (load_pool e n True f ts) = in_order f ts"
proof -
  have sm: "snd (starmap n True f ts) = collect (map (\<lambda>t. snd (f t)) ts)"
    using assms(1) by (simp add: starmap_eq comp_def)
  show ?thesis
  proof (cases "collect (map (\<lambda>t. snd (f t)) ts)")
    case (Inl err)
    then show ?thesis using sm
      by (cases "starmap n True f ts") (simp add: load_pool_def in_order_def Let_def)
  next
    case (Inr rs)
    then have "map (\<lambda>t. snd (f t)) ts = map Inr rs" by (simp add: collect_Inr_iff)
    then have "length rs = length ts" by (metis length_map)
    then have "rs \<noteq> []" using assms(2) by auto
    then have "reduce_concat rs = Inr (concat rs)"
      by (cases rs) (simp_all add: reduce_concat_def foldl_append_concat)
    then show ?thesis using sm Inr
      by (cases "starmap n True f ts") (simp add: load_pool_def in_order_def Let_def)
  qed
qed

lemma load_pool_unpicklable:
  assumes "0 < n" and "ts \<noteq> []"
  shows "snd (load_pool e n False f ts) = Inl PicklingError"
  using starmap_unpicklable[OF assms, of f]
  by (cases "starmap n False f ts") (simp add: load_pool_def Let_def)

lemma load_pool_fst:
  "\<exists>lg. fst (load_pool e n pk f ts) =
     (if n > cpu_count e then [WarnNumWorkers] else []) @ PoolCreated n # lg"
  by (cases "starmap n pk f ts") (auto simp: load_pool_def Let_def split: sum.splits)

lemma load_data_snd:
  "snd (snd (load_data e h d self sp nw fs)) =
     (case (if use_pool nw
            then snd (load_pool e (nat (case nw of None \<Rightarrow> 0 | Some n \<Rightarrow> n))
                       (task_picklable self (file_readers_of h (self_file_extractor self) d))
                       (load_task e self (file_readers_of h (self_file_extractor self) d)) (tasks_of self))
            else snd (load_sequential (load_task e self (file_readers_of h (self_file_extractor self) d))
                       (tasks_of self) [])) of
        Inl err \<Rightarrow> Inl err
      | Inr documents \<Rightarrow> Inr (exclude_metadata documents))"
  by (simp add: load_data_def Let_def split_def file_readers_of_def tasks_of_def)

lemma load_data_fst_snd:
  "fst (snd (load_data e h d self sp nw fs)) =
     (if use_pool nw
      then fst (load_pool e (nat (case nw of None \<Rightarrow> 0 | Some n \<Rightarrow> n))
                 (task_picklable self (file_readers_of h (self_file_extractor self) d))
                 (load_task e self (file_readers_of h (self_file_extractor self) d)) (tasks_of self))
      else fst (load_sequential (load_task e self (file_readers_of h (self_file_extractor self) d))
                 (tasks_of self) []))"
  by (simp add: load_data_def Let_def split_def file_readers_of_def tasks_of_def)

lemma load_data_sequential:
  "\<not> use_pool nw \<Longrightarrow>
   snd (snd (load_data e h d self sp nw fs)) =
     (case in_order (load_task e self (file_readers_of h (self_file_extractor self) d)) (tasks_of self) of
        Inl err \<Rightarrow> Inl err | Inr docs \<Rightarrow> Inr (exclude_metadata docs))"
  by (simp add: load_data_snd load_sequential_snd split: sum.splits)

lemma load_data_pool:
  "use_pool nw \<Longrightarrow> tasks_of self \<noteq> [] \<Longrightarrow>
   task_picklable self (file_readers_of h (self_file_extractor self) d) \<Longrightarrow>
   snd (snd (load_data e h d self sp nw fs)) =
     (case in_order (load_task e self (file_readers_of h (self_file_extractor self) d)) (tasks_of self) of
        Inl err \<Rightarrow> Inl err | Inr docs \<Rightarrow> Inr (exclude_metadata docs))"
proof -
  assume u: "use_pool nw" and t: "tasks_of self \<noteq> []"
    and pk: "task_picklable self (file_readers_of h (self_file_extractor self) d)"
  obtain n where n: "nw = Some n" "1 \<le> n" using u by (cases nw) (auto simp: use_pool_def)
  then have "0 < nat n" by simp
  then show ?thesis using u t n pk
    by (simp add: load_data_snd load_pool_snd)
qed

lemma load_data_unpicklable:
  assumes "use_pool nw" and "tasks_of self \<noteq> []"
    and "\<not> task_picklable self (file_readers_of h (self_file_extractor self) d)"
  shows "snd (snd (load_data e h d self sp nw fs)) = Inl PicklingError"
proof -
  obtain n where n: "nw = Some n" "1 \<le> n" using assms(1) by (cases nw) (auto simp: use_pool_def)
  then have "0 < nat n" by simp
  then show ?thesis using assms n
    by (simp add: load_data_snd load_pool_unpicklable)
qed

lemma add_files_nonempty: "add_files self d = Inr files \<Longrightarrow> files \<noteq> []"
  by (auto simp: add_files_def Let_def split: if_splits option.splits)

lemma check_input_files_length: "check_input_files e fs ps = Inr files \<Longrightarrow> length files = length ps"
  by (induction ps arbitrary: files) (auto simp: Let_def split: if_splits sum.splits)

lemma init_nonempty:
  assumes "init e h a = Inr (h', self)"
  shows "self_input_files self \<noteq> []"
proof -
  let ?fs = "case arg_fs a of None \<Rightarrow> get_default_fs e | Some f \<Rightarrow> f"
  have guard: "\<not> ((\<not> truthy (arg_input_dir a) \<and> \<not> truthy (arg_input_files a))
                  \<or> (truthy (arg_input_dir a) \<and> truthy (arg_input_files a)))"
  proof
    assume g: "(\<not> truthy (arg_input_dir a) \<and> \<not> truthy (arg_input_files a))
                  \<or> (truthy (arg_input_dir a) \<and> truthy (arg_input_files a))"
    have "init e h a = Inl ValueError_must_provide"
      unfolding init_def using g by (rule if_P)
    then show False using assms by simp
  qed
  show ?thesis
  proof (cases "truthy (arg_input_files a)")
    case True
    then obtain p ps where ps: "arg_input_files a = Some (p # ps)"
      by (cases "arg_input_files a") (auto simp: truthy_def neq_Nil_conv)
    then obtain files where f: "check_input_files e ?fs (p # ps) = Inr files"
        "self_input_files self = files"
      using assms by (auto simp: init_def Let_def split_def split: sum.splits if_splits)
    then have "length files = length (p # ps)" using check_input_files_length by blast
    then show ?thesis using f(2) by auto
  next
    case False
    then have dir: "truthy (arg_input_dir a)" using guard by blast
    then obtain input_dir where d: "arg_input_dir a = Some input_dir" "input_dir \<noteq> []"
      by (cases "arg_input_dir a") (auto simp: truthy_def)
    have nf: "\<And>p ps. arg_input_files a \<noteq> Some (p # ps)"
      using False by (auto simp: truthy_def)
    obtain self0 files where f: "add_files self0 (Path_of input_dir) = Inr files"
        "self_input_files self = files"
      using assms d nf
      by (cases "arg_input_files a"; cases "the (arg_input_files a)")
         (auto simp: init_def Let_def split_def split: sum.splits if_splits)
    then show ?thesis using add_files_nonempty by blast
  qed
qed

lemma zip_metadatas_nonempty: "files \<noteq> [] \<Longrightarrow> zip_metadatas files mds \<noteq> []"
  by (cases files; cases mds; cases "the mds") (auto simp: zip_metadatas_def)

lemma map_fst_zip_metadatas:
  "map fst (zip_metadatas files mds) = take (length (zip_metadatas files mds)) files"
  by (cases mds) (auto simp: zip_metadatas_def comp_def map_fst_zip_take min_def)

lemma in_order_Inr:
  assumes "in_order f ts = Inr docs"
  shows "\<exists>rs. length rs = length ts \<and> (\<forall>i<length rs. snd (f (ts ! i)) = Inr (rs ! i)) \<and> docs = concat rs"
proof -
  obtain rs where rs: "collect (map (\<lambda>t. snd (f t)) ts) = Inr rs" "docs = concat rs"
    using assms by (auto simp: in_order_def split: sum.splits)
  then have m: "map (\<lambda>t. snd (f t)) ts = map Inr rs" by (simp add: collect_Inr_iff)
  then have len: "length rs = length ts" by (metis length_map)
  have "snd (f (ts ! i)) = Inr (rs ! i)" if "i < length rs" for i
  proof -
    have "map (\<lambda>t. snd (f t)) ts ! i = map Inr rs ! i" using m by simp
    then show ?thesis using that len by simp
  qed
  then show ?thesis using len rs(2) by blast
qed

text \<open>
  C2 (as amended). For an instance that \<^verbatim>\<open>__init__\<close> returned, any store and flags,
  and any worker count \<open>n \<ge> 1\<close>: when \<^verbatim>\<open>pickle\<close> accepts the registry with its
  readers, the metadata function and the filesystem, \<^verbatim>\<open>_load_data\<close> returns a node
  sequence with the pool exactly when it returns that sequence without one; when it does
  not accept them, the pooled run raises. The sequence is the concatenation, in file-list
  order, of what \<^verbatim>\<open>load_file\<close> returns for each file (with the file metadata keys added
  to the exclusion lists), and the files loaded are an initial segment of the file list, in
  its order. Readers and the metadata function are functions of their arguments.
\<close>

theorem pool_equals_sequential:
  assumes "init e h0 a = Inr (h1, self)" and "1 \<le> n"
  shows "(task_picklable self (file_readers_of h (self_file_extractor self) d) \<longrightarrow>
            (snd (snd (load_data e h d self sp (Some n) fs)) = Inr docs
               \<longleftrightarrow> snd (snd (load_data e h d self sp' None fs')) = Inr docs))
       \<and> (\<not> task_picklable self (file_readers_of h (self_file_extractor self) d) \<longrightarrow>
            snd (snd (load_data e h d self sp (Some n) fs)) = Inl PicklingError)
       \<and> (snd (snd (load_data e h d self sp' None fs')) = Inr docs \<longrightarrow>
            (\<exists>rs. length rs = length (tasks_of self)
               \<and> (\<forall>i<length rs.
                     snd (load_task e self (file_readers_of h (self_file_extractor self) d)
                            (tasks_of self ! i)) = Inr (rs ! i))
               \<and> docs = exclude_metadata (concat rs)))
       \<and> map fst (tasks_of self) = take (length (tasks_of self)) (self_input_files self)"
proof -
  let ?f = "load_task e self (file_readers_of h (self_file_extractor self) d)"
  let ?io = "case in_order ?f (tasks_of self) of Inl err \<Rightarrow> Inl err | Inr ds \<Rightarrow> Inr (exclude_metadata ds)"
  have ne: "tasks_of self \<noteq> []"
    using init_nonempty[OF assms(1)] by (simp add: tasks_of_def zip_metadatas_nonempty)
  have up: "use_pool (Some n)" using assms(2) by (simp add: use_pool_def)
  have pool: "snd (snd (load_data e h d self sp (Some n) fs)) = ?io"
    if "task_picklable self (file_readers_of h (self_file_extractor self) d)"
    using up ne that by (rule load_data_pool)
  have refused: "snd (snd (load_data e h d self sp (Some n) fs)) = Inl PicklingError"
    if "\<not> task_picklable self (file_readers_of h (self_file_extractor self) d)"
    using up ne that by (rule load_data_unpicklable)
  have seq: "snd (snd (load_data e h d self sp' None fs')) = ?io"
    by (rule load_data_sequential) (simp add: use_pool_def)
  have order: "\<exists>rs. length rs = length (tasks_of self)
               \<and> (\<forall>i<length rs. snd (?f (tasks_of self ! i)) = Inr (rs ! i))
               \<and> docs = exclude_metadata (concat rs)"
    if res: "snd (snd (load_data e h d self sp' None fs')) = Inr docs"
  proof -
    obtain ds where ds: "in_order ?f (tasks_of self) = Inr ds" "docs = exclude_metadata ds"
      using res seq
      by (cases "in_order ?f (tasks_of self)") auto
    then show ?thesis using in_order_Inr[OF ds(1)] by auto
  qed
  have pre: "map fst (tasks_of self) = take (length (tasks_of self)) (self_input_files self)"
    by (simp add: tasks_of_def map_fst_zip_metadatas)
  show ?thesis using pool refused seq order pre by simp
qed

lemma in_order_drop:
  assumes "snd (f t) = Inr []"
  shows "in_order f (xs @ t # ys) = in_order f (xs @ ys)"
  using assms by (induction xs) (simp_all add: in_order_Cons split: sum.splits)

lemma load_data_in_order:
  assumes "tasks_of self \<noteq> []"
    and "use_pool nw \<longrightarrow> task_picklable self (file_readers_of h (self_file_extractor self) d)"
  shows "snd (snd (load_data e h d self sp nw fs)) =
     (case in_order (load_task e self (file_readers_of h (self_file_extractor self) d)) (tasks_of self) of
        Inl err \<Rightarrow> Inl err | Inr docs \<Rightarrow> Inr (exclude_metadata docs))"
  using assms load_data_pool[of nw self h d e sp fs] load_data_sequential[of nw e h d self sp fs]
  by (cases "use_pool nw") simp_all

lemma no_pool_None: "\<not> use_pool None"
  by (simp add: use_pool_def)

lemma merge_readers_list_all:
  assumes "list_all P caller" and "list_all P defaults"
  shows "list_all P (merge_readers caller defaults)"
proof -
  obtain extra where "merge_readers caller defaults = caller @ extra" "set extra \<subseteq> set defaults"
    using merge_readers_shape by blast
  then show ?thesis using assms by (auto simp: list_all_iff)
qed

lemma default_file_readers_picklable:
  "list_all (\<lambda>kf. picklable (snd kf)) (default_file_readers rc)"
  by (simp add: default_file_readers_def)


lemma decode_failure_dropped:
  assumes tasks: "tasks_of self = ts1 @ (bad, md) # ts2"
    and unmatched: "find_extractor e (self_Path self) (str_lower (path_str bad))
                      (file_readers_of h (self_file_extractor self) d) = Inr None"
    and gen: "self_metadata_genf self (path_str bad) = Inr gen"
    and fb: "use_fallback_reader e"
    and opened: "fs_open (self_fs self) (path_str bad) (self_encoding self) = Inr hdl"
    and undecodable: "case hdl of Inl _ \<Rightarrow> True | Inr raw \<Rightarrow> decode e (self_encoding self) raw = None"
    and others: "in_order (load_task e self (file_readers_of h (self_file_extractor self) d)) (ts1 @ ts2)
                   = Inr docs"
    and pk: "use_pool nw \<longrightarrow> task_picklable self (file_readers_of h (self_file_extractor self) d)"
  shows "load_task e self (file_readers_of h (self_file_extractor self) d) (bad, md)
           = ([ErrorNotDecodable (path_str bad)], Inr [])
       \<and> snd (snd (load_data e h d self sp nw fs)) = Inr (exclude_metadata docs)"
proof -
  let ?f = "load_task e self (file_readers_of h (self_file_extractor self) d)"
  have g: "(case Some (self_metadata_genf self) of None \<Rightarrow> Inr [] | Some g \<Rightarrow> g (path_str bad)) = Inr gen"
    using gen by simp
  have "?f (bad, md) = fallback_read e bad (case md of None \<Rightarrow> [] | Some m \<Rightarrow> m) (self_encoding self)
                         (Some (self_fs self))"
    unfolding load_task_def fst_conv snd_conv by (rule fallback_when_unmatched[OF unmatched g])
  then have bad: "?f (bad, md) = ([ErrorNotDecodable (path_str bad)], Inr [])"
    using fb opened undecodable by (simp add: fallback_read_def split: sum.splits)
  have ne: "tasks_of self \<noteq> []" using tasks by simp
  have "in_order ?f (tasks_of self) = in_order ?f (ts1 @ ts2)"
    unfolding tasks using bad by (simp add: in_order_drop)
  then show ?thesis using bad others load_data_in_order[OF ne pk, of e sp fs] by simp
qed




text \<open>
  C5. For a worker count \<open>n \<ge> 1\<close> above the CPU count, \<^verbatim>\<open>_load_data\<close> emits the
  warning and then makes the pool with \<open>n\<close> workers: the size is not reduced to the CPU
  count, although the warning says so.
\<close>

theorem pool_size_is_requested:
  assumes "1 \<le> n" and "int (cpu_count e) < n"
  shows "\<exists>lg. fst (snd (load_data e h d self sp (Some n) fs))
               = WarnNumWorkers # PoolCreated (nat n) # lg
            \<and> nat n \<noteq> cpu_count e"
proof -
  have up: "use_pool (Some n)" using assms(1) by (simp add: use_pool_def)
  have gt: "nat n > cpu_count e" using assms by linarith
  obtain lg where "fst (load_pool e (nat n)
                      (task_picklable self (file_readers_of h (self_file_extractor self) d))
                      (load_task e self (file_readers_of h (self_file_extractor self) d))
                      (tasks_of self))
                   = (if nat n > cpu_count e then [WarnNumWorkers] else []) @ PoolCreated (nat n) # lg"
    using load_pool_fst by blast
  then show ?thesis using up gt by (auto simp: load_data_fst_snd)
qed

section \<open>The loaders on the concrete environment\<close>

lemma demo_flags:
  "rag_filename_as_id demo_env = False" "use_fallback_reader demo_env = True"
  "cpu_count demo_env = 4" "decode demo_env = ascii_decode" "data_path demo_env = ''/data''"
  by (simp_all add: demo_env_def)

lemma demo_paths:
  "path_str [''/'', ''data'', ''a.md''] = ''/data/a.md''"
  "path_str [''/'', ''data'', ''c.bin''] = ''/data/c.bin''"
  "path_str [''/'', ''data'', ''gone.txt''] = ''/data/gone.txt''"
  by (simp_all add: path_str_def has_root_def)

lemma demo_lower:
  "str_lower ''/data/c.bin'' = ''/data/c.bin''"
  "str_lower ''/data/gone.txt'' = ''/data/gone.txt''"
  "str_lower ''/data/b.txt'' = ''/data/b.txt''"
  by (simp_all add: str_lower_def)

lemma demo_defaults_unmatched:
  "find_extractor demo_env PathCls ''/data/b.txt'' (default_file_readers demo_classes) = Inr None"
  "find_extractor demo_env PathCls ''/data/c.bin'' (default_file_readers demo_classes) = Inr None"
  "find_extractor demo_env PathCls ''/data/gone.txt'' (default_file_readers demo_classes) = Inr None"
  by (simp_all add: default_file_readers_def match_target_star Path_of_def path_str_def has_root_def
      str_lower_def demo_env_def)

lemma demo_md_unmatched:
  "find_extractor demo_env PathCls ''/data/b.txt'' [(''*.md'', x)] = Inr None"
  "find_extractor demo_env PathCls ''/data/c.bin'' [(''*.md'', x)] = Inr None"
  "find_extractor demo_env PathCls ''/data/gone.txt'' [(''*.md'', x)] = Inr None"
  by (simp_all add: demo_match_target_md) (simp_all add: demo_env_def)

lemma demo_registry:
  "file_readers_of demo_heap 1 0
     = merge_readers [(''*.md'', ReaderInstance True demo_reader)] (default_file_readers demo_classes)"
  "file_readers_of demo_heap 2 0
     = merge_readers [(''*.md'', ReaderInstance True failing_reader)] (default_file_readers demo_classes)"
  "file_readers_of demo_heap 3 0
     = merge_readers [(''*.md'', ReaderInstance False demo_reader)] (default_file_readers demo_classes)"
  by (simp_all add: file_readers_of_merge demo_heap_next demo_heap_get0 demo_heap_get1 demo_heap_get2
      demo_heap_get3 del: One_nat_def)

lemma demo_unmatched_merged:
  "find_extractor demo_env PathCls ''/data/b.txt''
     (merge_readers [(''*.md'', x)] (default_file_readers demo_classes)) = Inr None"
  "find_extractor demo_env PathCls ''/data/c.bin''
     (merge_readers [(''*.md'', x)] (default_file_readers demo_classes)) = Inr None"
  "find_extractor demo_env PathCls ''/data/gone.txt''
     (merge_readers [(''*.md'', x)] (default_file_readers demo_classes)) = Inr None"
  by (rule find_extractor_merge_None, rule demo_md_unmatched, rule demo_defaults_unmatched)+

lemma demo_matched_merged:
  "find_extractor demo_env PathCls ''/data/a.md''
     (merge_readers [(''*.md'', x)] (default_file_readers demo_classes)) = Inr (Some (''*.md'', x))"
  by (rule find_extractor_caller_first) (simp add: demo_match_target_md demo_fnmatch_a_md)

lemma demo_genf_case:
  "(case Some demo_genf of None \<Rightarrow> Inr [] | Some g \<Rightarrow> g p) = Inr [(''file_size'', IntV 10)]"
  by (simp add: demo_genf_def)

lemma demo_load_a:
  "load_file demo_env [''/'', ''data'', ''a.md''] (Some demo_genf)
     (merge_readers [(''*.md'', ReaderInstance pk demo_reader)] (default_file_readers demo_classes))
     ''utf-8'' PathCls (Some demo_fs) md
   = ([], Inr [new_DocNode ''markdown''
                 (dict_update [(''file_size'', IntV 20), (''lang'', StrV ''en'')]
                    (case md of None \<Rightarrow> [] | Some m \<Rightarrow> m))])"
  by (simp add: load_file_def demo_paths demo_a_md_lower[simplified demo_paths] demo_matched_merged
      demo_genf_def read_docs_def get_reader_def demo_reader_def nodes_of_def merge_metadata_def
      dict_update_def new_DocNode_def demo_flags)

lemma demo_load_a_failing:
  "load_file demo_env [''/'', ''data'', ''a.md''] (Some demo_genf)
     (merge_readers [(''*.md'', ReaderInstance True failing_reader)] (default_file_readers demo_classes))
     ''utf-8'' PathCls (Some demo_fs) md
   = ([], Inl (Raised ''boom''))"
  by (simp add: load_file_def demo_paths demo_a_md_lower[simplified demo_paths] demo_matched_merged
      demo_genf_def read_docs_def get_reader_def failing_reader_def)

lemma demo_load_b:
  "load_file demo_env [''/'', ''data'', ''b.txt''] (Some demo_genf)
     (merge_readers [(''*.md'', x)] (default_file_readers demo_classes))
     ''utf-8'' PathCls (Some demo_fs) None
   = ([], Inr [new_DocNode ''hello'' []])"
  by (simp add: load_file_def demo_path_b demo_lower demo_unmatched_merged demo_genf_def
      demo_fallback_b[simplified demo_path_b])

lemma demo_load_c:
  "load_file demo_env [''/'', ''data'', ''c.bin''] (Some demo_genf)
     (merge_readers [(''*.md'', x)] (default_file_readers demo_classes))
     ''utf-8'' PathCls (Some demo_fs) None
   = ([ErrorNotDecodable ''/data/c.bin''], Inr [])"
  by (simp add: load_file_def demo_paths demo_lower demo_unmatched_merged demo_genf_def
      fallback_read_def demo_flags demo_fs_def ascii_decode_def)

lemma demo_load_gone:
  "load_file demo_env [''/'', ''data'', ''gone.txt''] (Some demo_genf)
     (merge_readers [(''*.md'', x)] (default_file_readers demo_classes))
     ''utf-8'' PathCls (Some demo_fs) None
   = ([], Inl (Raised ''FileNotFoundError''))"
  by (simp add: load_file_def demo_paths demo_lower demo_unmatched_merged demo_genf_def
      fallback_read_def demo_flags demo_fs_def)


lemma demo_self_fields:
  "self_metadata_genf demo_self = demo_genf" "self_encoding demo_self = ''utf-8''"
  "self_Path demo_self = PathCls" "self_fs demo_self = demo_fs"
  "self_file_extractor demo_self = 1" "self_metadatas demo_self = None"
  "self_input_files demo_self = [[''/'', ''data'', ''a.md''], [''/'', ''data'', ''b.txt'']]"
  "self_metadata_genf_picklable demo_self"
  by (simp_all add: demo_self_def)

lemma demo_fs_picklable: "fs_picklable demo_fs"
  by (simp add: demo_fs_def)

lemma demo_picklable:
  "task_picklable demo_self (file_readers_of demo_heap 1 0)"
  "task_picklable (demo_self\<lparr>self_input_files := x\<rparr>) (file_readers_of demo_heap 1 0)"
  by (simp_all add: task_picklable_def demo_self_fields demo_fs_picklable demo_registry
      merge_readers_list_all default_file_readers_picklable del: One_nat_def)

lemma demo_unpicklable:
  "\<not> task_picklable (demo_self\<lparr>self_file_extractor := 3\<rparr>) (file_readers_of demo_heap 3 0)"
proof -
  obtain extra where "merge_readers [(''*.md'', ReaderInstance False demo_reader)]
                        (default_file_readers demo_classes)
                      = [(''*.md'', ReaderInstance False demo_reader)] @ extra"
    using merge_readers_shape by blast
  then show ?thesis by (simp add: task_picklable_def demo_registry)
qed

lemma demo_tasks:
  "tasks_of demo_self = [([''/'', ''data'', ''a.md''], None), ([''/'', ''data'', ''b.txt''], None)]"
  by (simp add: tasks_of_def zip_metadatas_def demo_self_fields)

lemma demo_load_data:
  "snd (snd (load_data demo_env demo_heap 0 demo_self sp nw fs))
     = Inr (exclude_metadata [new_DocNode ''markdown'' [(''file_size'', IntV 20), (''lang'', StrV ''en'')],
                              new_DocNode ''hello'' []])"
proof -
  have ne: "tasks_of demo_self \<noteq> []" by (simp add: demo_tasks)
  have pk: "use_pool nw \<longrightarrow>
              task_picklable demo_self (file_readers_of demo_heap (self_file_extractor demo_self) 0)"
    by (simp add: demo_self_fields demo_picklable del: One_nat_def)
  show ?thesis
    unfolding load_data_in_order[OF ne pk]
    by (simp add: demo_tasks demo_self_fields demo_registry in_order_Cons in_order_Nil load_task_def
        demo_load_a demo_load_b dict_update_def del: One_nat_def)
qed

theorem pool_equals_sequential_witness:
  "init demo_env demo_heap demo_args = Inr (demo_heap, demo_self)
   \<and> task_picklable demo_self (file_readers_of demo_heap 1 0)
   \<and> snd (snd (load_data demo_env demo_heap 0 demo_self False (Some 3) None))
       = Inr (exclude_metadata [new_DocNode ''markdown'' [(''file_size'', IntV 20), (''lang'', StrV ''en'')],
                                new_DocNode ''hello'' []])
   \<and> snd (snd (load_data demo_env demo_heap 0 demo_self True None None))
       = Inr (exclude_metadata [new_DocNode ''markdown'' [(''file_size'', IntV 20), (''lang'', StrV ''en'')],
                                new_DocNode ''hello'' []])"
proof -
  let ?docs = "exclude_metadata [new_DocNode ''markdown'' [(''file_size'', IntV 20), (''lang'', StrV ''en'')],
                                new_DocNode ''hello'' []]"
  have i: "init demo_env demo_heap demo_args = Inr (demo_heap, demo_self)"
    by (simp add: init_def demo_args_def truthy_def demo_heap_get1 demo_fs_def os_path_join_def
        demo_flags Path_of_def demo_self_def Let_def suffix_to_prefix del: One_nat_def)
  have n: "(1::int) \<le> 3" by simp
  have pk: "task_picklable demo_self (file_readers_of demo_heap (self_file_extractor demo_self) 0)"
    by (simp add: demo_self_fields demo_picklable del: One_nat_def)
  have seq: "snd (snd (load_data demo_env demo_heap 0 demo_self True None None)) = Inr ?docs"
    by (rule demo_load_data)
  note eq = pool_equals_sequential[OF i n, where h = demo_heap and d = 0 and sp = False
      and fs = None and docs = ?docs and sp' = True and fs' = None, THEN conjunct1, THEN mp, OF pk]
  have "snd (snd (load_data demo_env demo_heap 0 demo_self False (Some 3) None)) = Inr ?docs"
    using eq seq by blast
  then show ?thesis using i seq demo_picklable(1) by blast
qed

text \<open>
  C2 as stated fails for a registry with a reader that \<^verbatim>\<open>pickle\<close> refuses, such as a
  lambda: the run without a pool returns the nodes of both files, the run with a pool
  raises.
\<close>

theorem unpicklable_reader_counterexample:
  "init demo_env demo_heap (demo_args\<lparr>arg_file_extractor := Some 3\<rparr>)
     = Inr (demo_heap, demo_self\<lparr>self_file_extractor := 3\<rparr>)
   \<and> snd (snd (load_data demo_env demo_heap 0 (demo_self\<lparr>self_file_extractor := 3\<rparr>)
                  False None None))
       = Inr (exclude_metadata [new_DocNode ''markdown'' [(''file_size'', IntV 20), (''lang'', StrV ''en'')],
                                new_DocNode ''hello'' []])
   \<and> snd (snd (load_data demo_env demo_heap 0 (demo_self\<lparr>self_file_extractor := 3\<rparr>)
                  False (Some 2) None))
       = Inl PicklingError"
proof -
  let ?self = "demo_self\<lparr>self_file_extractor := 3\<rparr>"
  have i: "init demo_env demo_heap (demo_args\<lparr>arg_file_extractor := Some 3\<rparr>) = Inr (demo_heap, ?self)"
    by (simp add: init_def demo_args_def truthy_def demo_heap_get3 demo_fs_def os_path_join_def
        demo_flags Path_of_def demo_self_def Let_def suffix_to_prefix del: One_nat_def)
  have t: "tasks_of ?self = [([''/'', ''data'', ''a.md''], None), ([''/'', ''data'', ''b.txt''], None)]"
    by (simp add: tasks_of_def zip_metadatas_def demo_self_fields)
  have ne: "tasks_of ?self \<noteq> []" by (simp add: t)
  have fe: "self_file_extractor ?self = 3" by simp
  have seq: "snd (snd (load_data demo_env demo_heap 0 ?self False None None))
       = Inr (exclude_metadata [new_DocNode ''markdown'' [(''file_size'', IntV 20), (''lang'', StrV ''en'')],
                                new_DocNode ''hello'' []])"
    unfolding load_data_sequential[OF no_pool_None]
    by (simp add: t demo_self_fields demo_registry in_order_Cons in_order_Nil load_task_def
        demo_load_a demo_load_b dict_update_def del: One_nat_def)
  have up: "use_pool (Some 2)" by (simp add: use_pool_def)
  have npk: "\<not> task_picklable ?self (file_readers_of demo_heap (self_file_extractor ?self) 0)"
    unfolding fe by (rule demo_unpicklable)
  have pool: "snd (snd (load_data demo_env demo_heap 0 ?self False (Some 2) None)) = Inl PicklingError"
    using up ne npk by (rule load_data_unpicklable)
  show ?thesis using i seq pool by blast
qed

theorem pool_size_is_requested_witness:
  "\<exists>lg. fst (snd (load_data demo_env demo_heap 0 demo_self False (Some 8) None))
          = WarnNumWorkers # PoolCreated 8 # lg"
proof -
  have a: "(1::int) \<le> 8" by simp
  have b: "int (cpu_count demo_env) < 8" by (simp add: demo_flags)
  from pool_size_is_requested[OF a b, of demo_heap 0 demo_self False None]
  show ?thesis by auto
qed

text \<open>
  C3 as stated fails: a reader that raises, and a file that cannot be opened, each end
  \<^verbatim>\<open>_load_data\<close> with the exception, although the other file of the batch loads.
\<close>

theorem failing_reader_aborts_counterexample:
  "snd (snd (load_data demo_env demo_heap 0 (demo_self\<lparr>self_file_extractor := 2\<rparr>) False None None))
     = Inl (Raised ''boom'')
   \<and> snd (snd (load_data demo_env demo_heap 0
       (demo_self\<lparr>self_input_files := [[''/'', ''data'', ''gone.txt''], [''/'', ''data'', ''b.txt'']]\<rparr>)
       False None None))
     = Inl (Raised ''FileNotFoundError'')
   \<and> snd (load_file demo_env [''/'', ''data'', ''b.txt''] (Some demo_genf)
       (file_readers_of demo_heap 2 0) ''utf-8'' PathCls (Some demo_fs) None)
     = Inr [new_DocNode ''hello'' []]"
proof -
  have ne1: "tasks_of (demo_self\<lparr>self_file_extractor := 2\<rparr>) \<noteq> []"
    by (simp add: tasks_of_def zip_metadatas_def demo_self_fields)
  have ne2: "tasks_of (demo_self\<lparr>self_input_files :=
               [[''/'', ''data'', ''gone.txt''], [''/'', ''data'', ''b.txt'']]\<rparr>) \<noteq> []"
    by (simp add: tasks_of_def zip_metadatas_def demo_self_fields)
  have r1: "snd (snd (load_data demo_env demo_heap 0 (demo_self\<lparr>self_file_extractor := 2\<rparr>) False None None))
     = Inl (Raised ''boom'')"
    unfolding load_data_sequential[OF no_pool_None]
    by (simp add: tasks_of_def zip_metadatas_def demo_self_fields demo_registry in_order_Cons
        in_order_Nil load_task_def demo_load_a_failing del: One_nat_def)
  have r2: "snd (snd (load_data demo_env demo_heap 0
       (demo_self\<lparr>self_input_files := [[''/'', ''data'', ''gone.txt''], [''/'', ''data'', ''b.txt'']]\<rparr>)
       False None None))
     = Inl (Raised ''FileNotFoundError'')"
    unfolding load_data_sequential[OF no_pool_None]
    by (simp add: tasks_of_def zip_metadatas_def demo_self_fields demo_registry in_order_Cons
        in_order_Nil load_task_def demo_load_gone del: One_nat_def)
  show ?thesis using r1 r2 by (simp add: demo_registry demo_load_b)
qed



section \<open>File discovery\<close>

lemma fold_insert_distinct:
  "distinct acc \<Longrightarrow>
   distinct (fold (\<lambda>r acc. if P (g r) then acc else List.insert (g r) acc) xs acc)"
  by (induction xs arbitrary: acc) simp_all

lemma fold_insert_set:
  "set (fold (\<lambda>r acc. if P (g r) then acc else List.insert (g r) acc) xs acc)
     = set acc \<union> {g r |r. r \<in> set xs \<and> \<not> P (g r)}"
  by (induction xs arbitrary: acc) auto

lemma sort_Nil_iff: "sort xs = [] \<longleftrightarrow> xs = []"
  by (metis length_0_conv length_sort)

lemma distinct_all_files: "distinct (all_files self d)"
  by (simp add: all_files_def split_def Let_def fold_insert_distinct)

lemma set_all_files:
  "set (all_files self d) =
     {Path_of r |r. r \<in> set (file_refs self d)
        \<and> \<not> skip_ref self (fst (rejected self d)) (snd (rejected self d)) (Path_of r)}"
  by (simp add: all_files_def split_def Let_def fold_insert_set)

lemma skip_ref_dir: "fs_isdir (self_fs self) (path_str p) \<Longrightarrow> skip_ref self rf rd p"
  by (simp add: skip_ref_def Let_def)

lemma skip_ref_hidden: "self_exclude_hidden self \<Longrightarrow> is_hidden p \<Longrightarrow> skip_ref self rf rd p"
  by (simp add: skip_ref_def Let_def)

lemma all_files_not_dir: "p \<in> set (all_files self d) \<Longrightarrow> \<not> fs_isdir (self_fs self) (path_str p)"
  using skip_ref_dir by (auto simp: set_all_files)

text \<open>
  C7. For every directory, \<^verbatim>\<open>_add_files\<close> raises the no-files error when the filtered
  candidate set is empty; otherwise it returns the candidates sorted, cut to the first
  \<open>limit\<close> of them when a positive limit is configured. What it returns is strictly
  ascending by path (so sorted and without duplicates), not empty, and holds no directory;
  the candidates are the glob results that the loop does not skip.
\<close>

theorem add_files_sorted_distinct_files:
  "(all_files self d = [] \<longrightarrow> add_files self d = Inl (ValueError_no_files (path_str d)))
   \<and> (all_files self d \<noteq> [] \<longrightarrow>
        add_files self d =
          Inr (case self_num_files_limit self of
                 None \<Rightarrow> sort (all_files self d)
               | Some limit \<Rightarrow> if 0 < limit then take (nat limit) (sort (all_files self d))
                               else sort (all_files self d)))
   \<and> (\<forall>files. add_files self d = Inr files \<longrightarrow>
        sorted_wrt (<) files \<and> distinct files \<and> files \<noteq> []
        \<and> (\<forall>p \<in> set files. \<not> fs_isdir (self_fs self) (path_str p) \<and> p \<in> set (all_files self d))
        \<and> (\<forall>limit. self_num_files_limit self = Some limit \<and> 0 < limit \<longrightarrow>
              files = take (nat limit) (sort (all_files self d))
              \<and> length files = min (nat limit) (length (all_files self d))))
   \<and> set (all_files self d) =
        {Path_of r |r. r \<in> set (file_refs self d)
           \<and> \<not> skip_ref self (fst (rejected self d)) (snd (rejected self d)) (Path_of r)}"
proof -
  let ?xs = "sort (all_files self d)"
  have sd: "sorted ?xs" "distinct ?xs" "set ?xs = set (all_files self d)"
    by (simp_all add: distinct_all_files)
  have c1: "all_files self d = [] \<longrightarrow> add_files self d = Inl (ValueError_no_files (path_str d))"
    by (simp add: add_files_def)
  have c2: "all_files self d \<noteq> [] \<longrightarrow>
        add_files self d =
          Inr (case self_num_files_limit self of
                 None \<Rightarrow> ?xs
               | Some limit \<Rightarrow> if 0 < limit then take (nat limit) ?xs else ?xs)"
    by (simp add: add_files_def Let_def sort_Nil_iff)
  have c3: "sorted_wrt (<) files \<and> distinct files \<and> files \<noteq> []
        \<and> (\<forall>p \<in> set files. \<not> fs_isdir (self_fs self) (path_str p) \<and> p \<in> set (all_files self d))
        \<and> (\<forall>limit. self_num_files_limit self = Some limit \<and> 0 < limit \<longrightarrow>
              files = take (nat limit) ?xs
              \<and> length files = min (nat limit) (length (all_files self d)))"
    if res: "add_files self d = Inr files" for files
  proof -
    have ne: "all_files self d \<noteq> []" using res c1 by auto
    have nx: "?xs \<noteq> []" using ne by (simp add: sort_Nil_iff)
    have fc: "files = ?xs \<or> (\<exists>limit. 0 < limit \<and> files = take (nat limit) ?xs)"
      using res c2 ne by (auto split: option.splits if_splits)
    have s: "sorted files" using fc sd(1) by (auto simp: sorted_wrt_take)
    have dd: "distinct files" using fc sd(2) by auto
    have sub: "set files \<subseteq> set (all_files self d)"
      using fc sd(3) by (auto dest: in_set_takeD)
    have nn: "files \<noteq> []" using fc nx by (auto simp: take_eq_Nil)
    have nd: "\<forall>p \<in> set files. \<not> fs_isdir (self_fs self) (path_str p) \<and> p \<in> set (all_files self d)"
      using sub all_files_not_dir by blast
    have lim: "\<forall>limit. self_num_files_limit self = Some limit \<and> 0 < limit \<longrightarrow>
              files = take (nat limit) ?xs
              \<and> length files = min (nat limit) (length (all_files self d))"
      using res c2 ne by (auto simp: min_def)
    show ?thesis using s dd nn nd lim by (simp add: strict_sorted_iff)
  qed
  show ?thesis using c1 c2 c3 set_all_files by blast
qed

lemma is_hidden_append: "is_hidden (p @ q) = (is_hidden p \<or> is_hidden q)"
  by (simp add: is_hidden_def list_ex_append)

lemma is_hidden_prefix: "prefix dir p \<Longrightarrow> is_hidden dir \<Longrightarrow> is_hidden p"
  by (auto simp: prefix_def is_hidden_append)

text \<open>
  C10. The hidden test looks at every part of a candidate's path. So when hidden files are
  excluded and the glob results lie under a resolved directory one of whose parts starts
  with a dot (and is neither \<open>.\<close> nor \<open>..\<close>), every candidate is skipped and
  \<^verbatim>\<open>_add_files\<close> raises the no-files error.
\<close>

theorem hidden_input_dir_finds_nothing:
  assumes "self_exclude_hidden self"
    and "is_hidden resolved"
    and "\<forall>r \<in> set (file_refs self input_dir). prefix resolved (Path_of r)"
  shows "all_files self input_dir = []
       \<and> add_files self input_dir = Inl (ValueError_no_files (path_str input_dir))
       \<and> (\<forall>rest. is_hidden (resolved @ rest))
       \<and> is_hidden p = list_ex (\<lambda>part. prefix ''.'' part \<and> part \<noteq> ''.'' \<and> part \<noteq> ''..'') p"
proof -
  have "\<forall>r \<in> set (file_refs self input_dir).
          skip_ref self (fst (rejected self input_dir)) (snd (rejected self input_dir)) (Path_of r)"
    using assms is_hidden_prefix skip_ref_hidden by blast
  then have "set (all_files self input_dir) = {}" by (auto simp: set_all_files)
  then have e: "all_files self input_dir = []" by simp
  then have "add_files self input_dir = Inl (ValueError_no_files (path_str input_dir))"
    by (simp add: add_files_def)
  then show ?thesis using e assms(2) by (simp add: is_hidden_append is_hidden_def)
qed

lemma demo_all_files:
  "all_files demo_self [''/'', ''data'']
     = [[''/'', ''data'', ''c.bin''], [''/'', ''data'', ''a.md''], [''/'', ''data'', ''b.txt'']]"
  by code_simp

lemma demo_add_files:
  "add_files demo_self [''/'', ''data'']
     = Inr [[''/'', ''data'', ''a.md''], [''/'', ''data'', ''b.txt'']]"
  by code_simp

lemma demo_sort_all_files:
  "sort (all_files demo_self [''/'', ''data''])
     = [[''/'', ''data'', ''a.md''], [''/'', ''data'', ''b.txt''], [''/'', ''data'', ''c.bin'']]"
  by code_simp

theorem add_files_sorted_distinct_files_witness:
  "add_files demo_self [''/'', ''data'']
     = Inr [[''/'', ''data'', ''a.md''], [''/'', ''data'', ''b.txt'']]
   \<and> sort (all_files demo_self [''/'', ''data''])
     = [[''/'', ''data'', ''a.md''], [''/'', ''data'', ''b.txt''], [''/'', ''data'', ''c.bin'']]
   \<and> sorted_wrt (<) [[''/'', ''data'', ''a.md''], [''/'', ''data'', ''b.txt'']]
   \<and> \<not> fs_isdir demo_fs (path_str [''/'', ''data'', ''a.md''])
   \<and> fs_isdir demo_fs ''/data/sub''
   \<and> ''/data/sub'' \<in> set (file_refs demo_self [''/'', ''data''])
   \<and> length [[''/'', ''data'', ''a.md''], [''/'', ''data'', ''b.txt'']]
       = min (nat 2) (length (all_files demo_self [''/'', ''data'']))"
proof -
  have lim: "self_num_files_limit demo_self = Some 2 \<and> (0::int) < 2"
    by (simp add: demo_self_def)
  have sub: "fs_isdir demo_fs ''/data/sub''" by (simp add: demo_fs_def)
  have refs: "''/data/sub'' \<in> set (file_refs demo_self [''/'', ''data''])"
    by (simp add: file_refs_def demo_self_def demo_fs_def path_str_def has_root_def)
  have fsd: "self_fs demo_self = demo_fs" by (simp add: demo_self_def)
  have "\<forall>files. add_files demo_self [''/'', ''data''] = Inr files \<longrightarrow>
        sorted_wrt (<) files \<and> distinct files \<and> files \<noteq> []
        \<and> (\<forall>p \<in> set files. \<not> fs_isdir (self_fs demo_self) (path_str p)
              \<and> p \<in> set (all_files demo_self [''/'', ''data'']))
        \<and> (\<forall>limit. self_num_files_limit demo_self = Some limit \<and> 0 < limit \<longrightarrow>
              files = take (nat limit) (sort (all_files demo_self [''/'', ''data'']))
              \<and> length files = min (nat limit) (length (all_files demo_self [''/'', ''data''])))"
    using add_files_sorted_distinct_files[of demo_self "[''/'', ''data'']"] by blast
  then have r: "sorted_wrt (<) [[''/'', ''data'', ''a.md''], [''/'', ''data'', ''b.txt'']]"
      "\<forall>p \<in> set [[''/'', ''data'', ''a.md''], [''/'', ''data'', ''b.txt'']].
          \<not> fs_isdir (self_fs demo_self) (path_str p)"
      "\<forall>limit. self_num_files_limit demo_self = Some limit \<and> 0 < limit \<longrightarrow>
          length [[''/'', ''data'', ''a.md''], [''/'', ''data'', ''b.txt'']]
            = min (nat limit) (length (all_files demo_self [''/'', ''data'']))"
    using demo_add_files by blast+
  have "\<not> fs_isdir demo_fs (path_str [''/'', ''data'', ''a.md''])"
    using r(2) fsd by simp
  moreover have "length [[''/'', ''data'', ''a.md''], [''/'', ''data'', ''b.txt'']]
            = min (nat 2) (length (all_files demo_self [''/'', ''data'']))"
    using r(3) lim by blast
  ultimately show ?thesis using r(1) demo_add_files demo_sort_all_files sub refs by blast
qed

theorem hidden_input_dir_finds_nothing_witness:
  "is_hidden (Path_of ''/home/u/.cache/docs'')
   \<and> file_refs demo_self (Path_of ''/home/u/.cache/docs'') = [''/home/u/.cache/docs/x.md'']
   \<and> add_files demo_self (Path_of ''/home/u/.cache/docs'')
       = Inl (ValueError_no_files ''/home/u/.cache/docs'')
   \<and> add_files (demo_self\<lparr>self_exclude_hidden := False\<rparr>) (Path_of ''/home/u/.cache/docs'')
       = Inr [[''/'', ''home'', ''u'', ''.cache'', ''docs'', ''x.md'']]"
proof -
  let ?d = "Path_of ''/home/u/.cache/docs''"
  have p: "?d = [''/'', ''home'', ''u'', ''.cache'', ''docs'']" by (simp add: Path_of_def)
  have ps: "path_str ?d = ''/home/u/.cache/docs''" by (simp add: p path_str_def has_root_def)
  have eh: "self_exclude_hidden demo_self" by (simp add: demo_self_def)
  have hid: "is_hidden ?d" by (simp add: p is_hidden_def)
  have refs: "file_refs demo_self ?d = [''/home/u/.cache/docs/x.md'']"
    by (simp add: file_refs_def ps demo_self_def demo_fs_def)
  have pre: "\<forall>r \<in> set (file_refs demo_self ?d). prefix ?d (Path_of r)"
    unfolding refs by (simp add: Path_of_def)
  have shown: "add_files (demo_self\<lparr>self_exclude_hidden := False\<rparr>) ?d
       = Inr [[''/'', ''home'', ''u'', ''.cache'', ''docs'', ''x.md'']]"
    unfolding p by code_simp
  from hidden_input_dir_finds_nothing[OF eh hid pre]
  show ?thesis using hid refs shown by (simp add: ps)
qed

section \<open>Failures of one file\<close>

lemma in_order_fails:
  "t \<in> set ts \<Longrightarrow> snd (f t) = Inl err \<Longrightarrow> \<exists>err'. in_order f ts = Inl err'"
proof (induction ts)
  case Nil
  then show ?case by simp
next
  case (Cons a ts)
  then show ?case
    by (cases "snd (f a)"; cases "in_order f ts") (auto simp: in_order_Cons)
qed

lemma reader_failure_raises:
  assumes "find_extractor e pm (str_lower (path_str f)) reg = Inr (Some (pat, ex))"
    and "(case genf of None \<Rightarrow> Inr [] | Some g \<Rightarrow> g (path_str f)) = Inr gen"
    and "get_reader ex = Inr rd"
    and "rd f (reader_kwargs fs) = Inl err"
  shows "load_file e f genf reg enc pm fs md = ([], Inl err)"
  using assms by (simp add: load_file_def read_docs_def)

lemma open_failure_raises:
  assumes "find_extractor e pm (str_lower (path_str f)) reg = Inr None"
    and "(case genf of None \<Rightarrow> Inr [] | Some g \<Rightarrow> g (path_str f)) = Inr gen"
    and "use_fallback_reader e"
    and "fs_open (case fs of None \<Rightarrow> get_default_fs e | Some x \<Rightarrow> x) (path_str f) enc = Inl err"
  shows "load_file e f genf reg enc pm fs md = ([], Inl err)"
  using assms by (simp add: load_file_def fallback_read_def)

text \<open>
  C3 (as amended). Only a read or decode failure in the fallback path is isolated. A file
  that no pattern matches and that opens, but whose content cannot be read or decoded,
  makes \<^verbatim>\<open>load_file\<close> log one error and return no node, and \<^verbatim>\<open>_load_data\<close>,
  without a pool or with a pool whose task arguments \<^verbatim>\<open>pickle\<close> accepts, returns the
  nodes of the other files whenever these load. A file for
  which \<^verbatim>\<open>load_file\<close> raises ends \<^verbatim>\<open>_load_data\<close> with an exception, and
  \<^verbatim>\<open>load_file\<close> raises what the reader raises and what \<^verbatim>\<open>fs.open\<close> raises.
\<close>

theorem decode_failure_is_isolated:
  "(tasks_of self = ts1 @ (bad, md) # ts2
      \<and> find_extractor e (self_Path self) (str_lower (path_str bad))
           (file_readers_of h (self_file_extractor self) d) = Inr None
      \<and> self_metadata_genf self (path_str bad) = Inr gen
      \<and> use_fallback_reader e
      \<and> fs_open (self_fs self) (path_str bad) (self_encoding self) = Inr hdl
      \<and> (case hdl of Inl _ \<Rightarrow> True | Inr raw \<Rightarrow> decode e (self_encoding self) raw = None)
      \<and> in_order (load_task e self (file_readers_of h (self_file_extractor self) d)) (ts1 @ ts2)
           = Inr docs
      \<and> (use_pool nw \<longrightarrow> task_picklable self (file_readers_of h (self_file_extractor self) d))
    \<longrightarrow> load_task e self (file_readers_of h (self_file_extractor self) d) (bad, md)
           = ([ErrorNotDecodable (path_str bad)], Inr [])
        \<and> snd (snd (load_data e h d self sp nw fs)) = Inr (exclude_metadata docs))
   \<and> (\<forall>t err. t \<in> set (tasks_of self)
         \<and> snd (load_task e self (file_readers_of h (self_file_extractor self) d) t) = Inl err
       \<longrightarrow> (\<exists>err'. snd (snd (load_data e h d self sp nw fs)) = Inl err'))
   \<and> (\<forall>f reg pat ex rd err genf enc pm rfs rmd.
         find_extractor e pm (str_lower (path_str f)) reg = Inr (Some (pat, ex))
         \<and> (case genf of None \<Rightarrow> Inr [] | Some g \<Rightarrow> g (path_str f)) = Inr gen
         \<and> get_reader ex = Inr rd \<and> rd f (reader_kwargs rfs) = Inl err
       \<longrightarrow> load_file e f genf reg enc pm rfs rmd = ([], Inl err))
   \<and> (\<forall>f reg err genf enc pm rfs rmd.
         find_extractor e pm (str_lower (path_str f)) reg = Inr None
         \<and> (case genf of None \<Rightarrow> Inr [] | Some g \<Rightarrow> g (path_str f)) = Inr gen
         \<and> use_fallback_reader e
         \<and> fs_open (case rfs of None \<Rightarrow> get_default_fs e | Some x \<Rightarrow> x) (path_str f) enc = Inl err
       \<longrightarrow> load_file e f genf reg enc pm rfs rmd = ([], Inl err))"
proof -
  let ?f = "load_task e self (file_readers_of h (self_file_extractor self) d)"
  have abort: "\<exists>err'. snd (snd (load_data e h d self sp nw fs)) = Inl err'"
    if t: "t \<in> set (tasks_of self)" and failed: "snd (?f t) = Inl err" for t err
  proof -
    have ne: "tasks_of self \<noteq> []" using t by auto
    obtain err' where io: "in_order ?f (tasks_of self) = Inl err'"
      using in_order_fails[of t "tasks_of self" ?f err, OF t failed] by blast
    show ?thesis
    proof (cases "use_pool nw \<and> \<not> task_picklable self (file_readers_of h (self_file_extractor self) d)")
      case True
      then have "snd (snd (load_data e h d self sp nw fs)) = Inl PicklingError"
        using ne by (simp add: load_data_unpicklable)
      then show ?thesis by blast
    next
      case False
      then have pk: "use_pool nw \<longrightarrow> task_picklable self (file_readers_of h (self_file_extractor self) d)"
        by blast
      show ?thesis using io load_data_in_order[OF ne pk, of e sp fs] by simp
    qed
  qed
  have c1: "tasks_of self = ts1 @ (bad, md) # ts2
      \<and> find_extractor e (self_Path self) (str_lower (path_str bad))
           (file_readers_of h (self_file_extractor self) d) = Inr None
      \<and> self_metadata_genf self (path_str bad) = Inr gen
      \<and> use_fallback_reader e
      \<and> fs_open (self_fs self) (path_str bad) (self_encoding self) = Inr hdl
      \<and> (case hdl of Inl _ \<Rightarrow> True | Inr raw \<Rightarrow> decode e (self_encoding self) raw = None)
      \<and> in_order ?f (ts1 @ ts2) = Inr docs
      \<and> (use_pool nw \<longrightarrow> task_picklable self (file_readers_of h (self_file_extractor self) d))
    \<longrightarrow> ?f (bad, md) = ([ErrorNotDecodable (path_str bad)], Inr [])
        \<and> snd (snd (load_data e h d self sp nw fs)) = Inr (exclude_metadata docs)"
    by (intro impI, elim conjE) (rule decode_failure_dropped; assumption)
  have c2: "\<forall>t err. t \<in> set (tasks_of self) \<and> snd (?f t) = Inl err
       \<longrightarrow> (\<exists>err'. snd (snd (load_data e h d self sp nw fs)) = Inl err')"
    using abort by blast
  have c3: "\<forall>f reg pat ex rd err genf enc pm rfs rmd.
         find_extractor e pm (str_lower (path_str f)) reg = Inr (Some (pat, ex))
         \<and> (case genf of None \<Rightarrow> Inr [] | Some g \<Rightarrow> g (path_str f)) = Inr gen
         \<and> get_reader ex = Inr rd \<and> rd f (reader_kwargs rfs) = Inl err
       \<longrightarrow> load_file e f genf reg enc pm rfs rmd = ([], Inl err)"
    by (intro allI impI, elim conjE) (rule reader_failure_raises)
  have c4: "\<forall>f reg err genf enc pm rfs rmd.
         find_extractor e pm (str_lower (path_str f)) reg = Inr None
         \<and> (case genf of None \<Rightarrow> Inr [] | Some g \<Rightarrow> g (path_str f)) = Inr gen
         \<and> use_fallback_reader e
         \<and> fs_open (case rfs of None \<Rightarrow> get_default_fs e | Some x \<Rightarrow> x) (path_str f) enc = Inl err
       \<longrightarrow> load_file e f genf reg enc pm rfs rmd = ([], Inl err)"
    by (intro allI impI, elim conjE) (rule open_failure_raises)
  show ?thesis by (intro conjI c1 c2 c3 c4)
qed

theorem decode_failure_is_isolated_witness:
  "load_task demo_env
       (demo_self\<lparr>self_input_files := [[''/'', ''data'', ''c.bin''], [''/'', ''data'', ''b.txt'']]\<rparr>)
       (file_readers_of demo_heap 1 0) ([''/'', ''data'', ''c.bin''], None)
     = ([ErrorNotDecodable ''/data/c.bin''], Inr [])
   \<and> snd (snd (load_data demo_env demo_heap 0
       (demo_self\<lparr>self_input_files := [[''/'', ''data'', ''c.bin''], [''/'', ''data'', ''b.txt'']]\<rparr>)
       False (Some 2) None))
     = Inr (exclude_metadata [new_DocNode ''hello'' []])
   \<and> (\<exists>err. snd (snd (load_data demo_env demo_heap 0 (demo_self\<lparr>self_file_extractor := 2\<rparr>)
                        False (Some 2) None)) = Inl err)"
proof -
  let ?self = "demo_self\<lparr>self_input_files := [[''/'', ''data'', ''c.bin''], [''/'', ''data'', ''b.txt'']]\<rparr>"
  let ?bad = "[''/'', ''data'', ''c.bin'']"
  let ?s2 = "demo_self\<lparr>self_file_extractor := 2\<rparr>"
  have fe: "self_file_extractor ?self = 1" by (simp add: demo_self_fields)
  have t: "tasks_of ?self = [] @ (?bad, None) # [([''/'', ''data'', ''b.txt''], None)]"
    by (simp add: tasks_of_def zip_metadatas_def demo_self_fields)
  have u: "find_extractor demo_env (self_Path ?self) (str_lower (path_str ?bad))
             (file_readers_of demo_heap (self_file_extractor ?self) 0) = Inr None"
    by (simp add: demo_self_fields demo_paths demo_lower demo_registry demo_unmatched_merged
        del: One_nat_def)
  have g: "self_metadata_genf ?self (path_str ?bad) = Inr [(''file_size'', IntV 10)]"
    by (simp add: demo_self_fields demo_genf_def)
  have fb: "use_fallback_reader demo_env" by (simp add: demo_flags)
  have op: "fs_open (self_fs ?self) (path_str ?bad) (self_encoding ?self) = Inr (Inr [CHR 0xFF, CHR 0xFE])"
    by (simp add: demo_self_fields demo_paths demo_fs_def)
  have ud: "case Inr [CHR 0xFF, CHR 0xFE] of Inl _ \<Rightarrow> True
            | Inr raw \<Rightarrow> decode demo_env (self_encoding ?self) raw = None"
    by (simp add: demo_flags ascii_decode_def)
  have ot: "in_order (load_task demo_env ?self (file_readers_of demo_heap (self_file_extractor ?self) 0))
              ([] @ [([''/'', ''data'', ''b.txt''], None)]) = Inr [new_DocNode ''hello'' []]"
    by (simp add: demo_self_fields demo_registry in_order_Cons in_order_Nil load_task_def demo_load_b
        del: One_nat_def)
  note iso_rule = decode_failure_is_isolated[of ?self "[]" ?bad None "[([''/'', ''data'', ''b.txt''], None)]"
        demo_env demo_heap 0 "[(''file_size'', IntV 10)]" "Inr [CHR 0xFF, CHR 0xFE]"
        "[new_DocNode ''hello'' []]" "Some 2" False None, THEN conjunct1]
  have pk: "use_pool (Some 2) \<longrightarrow>
              task_picklable ?self (file_readers_of demo_heap (self_file_extractor ?self) 0)"
    by (simp add: fe demo_picklable del: One_nat_def)
  have iso: "load_task demo_env ?self (file_readers_of demo_heap (self_file_extractor ?self) 0) (?bad, None)
           = ([ErrorNotDecodable (path_str ?bad)], Inr [])
        \<and> snd (snd (load_data demo_env demo_heap 0 ?self False (Some 2) None))
           = Inr (exclude_metadata [new_DocNode ''hello'' []])"
    by (rule iso_rule[THEN mp]) (intro conjI t u g fb op ud ot pk)
  have m: "([''/'', ''data'', ''a.md''], None) \<in> set (tasks_of ?s2)"
    by (simp add: tasks_of_def zip_metadatas_def demo_self_fields)
  have fl: "snd (load_task demo_env ?s2 (file_readers_of demo_heap (self_file_extractor ?s2) 0)
                   ([''/'', ''data'', ''a.md''], None)) = Inl (Raised ''boom'')"
    by (simp add: load_task_def demo_self_fields demo_registry demo_load_a_failing del: One_nat_def)
  note ab_rule = decode_failure_is_isolated[of ?s2 "[]" ?bad None "[]" demo_env demo_heap 0 "[]"
        "Inl (Raised [])" "[]" "Some 2" False None, THEN conjunct2, THEN conjunct1]
  have ab: "\<exists>err. snd (snd (load_data demo_env demo_heap 0 ?s2 False (Some 2) None)) = Inl err"
    using ab_rule m fl by blast
  show ?thesis using iso ab by (simp add: fe demo_paths del: One_nat_def)
qed

section \<open>Further properties\<close>

text \<open>
  With \<^verbatim>\<open>PurePosixPath\<close>, which \<^verbatim>\<open>__init__\<close> selects for a filesystem that is not the
  default one, \<^verbatim>\<open>load_file\<close> raises \<^verbatim>\<open>AttributeError\<close> as soon as the first pattern
  of the registry does not end in \<open>*\<close>: line 210 calls \<^verbatim>\<open>pathm.cwd()\<close>, which only
  \<^verbatim>\<open>Path\<close> has.
\<close>

theorem pure_posix_path_has_no_cwd:
  assumes "\<not> suffix ''*'' (str_lower (path_str (Path_of pattern)))"
    and "(case genf of None \<Rightarrow> Inr [] | Some g \<Rightarrow> g (path_str f)) = Inr gen"
  shows "load_file e f genf ((pattern, ex) # rest) enc PurePosixPathCls fs md
           = ([], Inl AttributeError_cwd)"
  using assms by (simp add: load_file_def match_target_def pathm_cwd_def Let_def)

theorem pure_posix_path_has_no_cwd_witness:
  "load_file demo_env [''/'', ''data'', ''a.md''] (Some demo_genf) (default_file_readers demo_classes)
     ''utf-8'' PurePosixPathCls (Some (demo_fs\<lparr>fs_is_default := False\<rparr>)) None
   = ([], Inl AttributeError_cwd)"
proof -
  have a: "\<not> suffix ''*'' (str_lower (path_str (Path_of ''*.pdf'')))"
    by (simp add: Path_of_def path_str_def has_root_def str_lower_def suffix_to_prefix)
  have g: "(case Some demo_genf of None \<Rightarrow> Inr [] | Some g \<Rightarrow> g (path_str [''/'', ''data'', ''a.md'']))
             = Inr [(''file_size'', IntV 10)]"
    by (simp add: demo_genf_def)
  show ?thesis
    using pure_posix_path_has_no_cwd[OF a g, of demo_env "ReaderType True (PDFReader demo_classes)"
        "tl (default_file_readers demo_classes)" "''utf-8''" "Some (demo_fs\<lparr>fs_is_default := False\<rparr>)" None]
    by (simp add: default_file_readers_def)
qed

text \<open>
  \<^verbatim>\<open>_exclude_metadata\<close> appends the six file metadata keys to both exclusion lists of
  every node and changes nothing else.
\<close>

theorem exclude_metadata_appends_keys:
  "length (exclude_metadata docs) = length docs
   \<and> (\<forall>i < length docs.
        excluded_embed_metadata_keys (exclude_metadata docs ! i)
          = excluded_embed_metadata_keys (docs ! i) @ file_meta_keys
        \<and> excluded_llm_metadata_keys (exclude_metadata docs ! i)
          = excluded_llm_metadata_keys (docs ! i) @ file_meta_keys
        \<and> node_text (exclude_metadata docs ! i) = node_text (docs ! i)
        \<and> global_metadata (exclude_metadata docs ! i) = global_metadata (docs ! i)
        \<and> uid (exclude_metadata docs ! i) = uid (docs ! i))"
  by (simp add: exclude_metadata_def)

theorem exclude_metadata_appends_keys_witness:
  "excluded_embed_metadata_keys (exclude_metadata [new_DocNode ''hello'' []] ! 0)
     = [''file_name'', ''file_type'', ''file_size'', ''creation_date'',
        ''last_modified_date'', ''last_accessed_date'']"
  using exclude_metadata_appends_keys[of "[new_DocNode ''hello'' []]"]
  by (simp add: new_DocNode_def file_meta_keys_def)

end
